theory Spec2Isabelle
  imports Main "HOL-Library.Word"
begin

unbundle bit_operations_syntax

section \<open>The knowledge base the manager works on\<close>

text \<open>
  Modelled from the spec: the knowledge-base store (sc-memory), a library of its own that
  \<^verbatim>\<open>DirectInferenceManager.cpp\<close> reaches through \<^verbatim>\<open>ms_context\<close>. It ``exposes
  element existence checks, creation and deletion of elements and typed relation arcs,
  and traversal cursors over triples and quintuples''. The operations the manager's own
  code calls (\<^verbatim>\<open>Iterator3\<close>, \<^verbatim>\<open>Iterator5\<close>, \<^verbatim>\<open>EraseElement\<close>, \<^verbatim>\<open>CreateEdge\<close>) work
  on a list of elements in creation order.
\<close>

text \<open>An \<^verbatim>\<open>ScAddr\<close> is a handle; the empty handle \<^verbatim>\<open>ScAddr()\<close> is \<open>0\<close>.\<close>

type_synonym ScAddr = nat

definition IsValid :: "ScAddr \<Rightarrow> bool" where
  "IsValid a = (a \<noteq> 0)"

text \<open>
  Modelled from the spec: the element types of the store (``typed relation arcs''), which
  the store's library declares. \<^verbatim>\<open>ScType\<close> wraps a 16-bit mask; the constants below
  are its bits for the types the manager names. An iterator's type pattern matches an
  element whose type has every bit of the pattern. The proofs use only which pattern
  matches which type.
\<close>

type_synonym ScType = "16 word"

definition ScType_Node :: ScType where
  "ScType_Node = 0x1"

definition ScType_EdgeDCommon :: ScType where
  "ScType_EdgeDCommon = 0x8"

definition ScType_EdgeDCommonConst :: ScType where
  "ScType_EdgeDCommonConst = 0x8 OR 0x20"

definition ScType_EdgeAccess :: ScType where
  "ScType_EdgeAccess = 0x10"

definition ScType_EdgeAccessConstPosPerm :: ScType where
  "ScType_EdgeAccessConstPosPerm = 0x10 OR 0x20 OR 0x80 OR 0x800"

definition ScType_EdgeAccessConstPosTemp :: ScType where
  "ScType_EdgeAccessConstPosTemp = 0x10 OR 0x20 OR 0x80 OR 0x400"

definition ScType_EdgeAccessConstNegTemp :: ScType where
  "ScType_EdgeAccessConstNegTemp = 0x10 OR 0x20 OR 0x100 OR 0x400"

definition type_matches :: "ScType \<Rightarrow> ScType \<Rightarrow> bool" where
  "type_matches pattern t = (t AND pattern = pattern)"

datatype ScElement = ScNode ScType | ScEdge ScType ScAddr ScAddr

type_synonym ScMemory = "(ScAddr \<times> ScElement) list"

definition IsElement :: "ScMemory \<Rightarrow> ScAddr \<Rightarrow> bool" where
  "IsElement m a = (a \<in> set (map fst m))"

fun node_matches :: "ScType \<Rightarrow> ScElement \<Rightarrow> bool" where
  "node_matches pattern (ScNode t) = type_matches pattern t"
| "node_matches pattern (ScEdge t s g) = False"

fun edge_matches :: "ScAddr \<Rightarrow> ScType \<Rightarrow> ScAddr \<Rightarrow> ScElement \<Rightarrow> bool" where
  "edge_matches src pattern trg (ScNode t) = False"
| "edge_matches src pattern trg (ScEdge t s g) = (s = src \<and> g = trg \<and> type_matches pattern t)"

text \<open>
  \<^verbatim>\<open>Iterator3(src, edgeType, nodeType)\<close>: every arc of the given type that leaves
  \<^verbatim>\<open>src\<close> and ends in a node of the given type; the result holds the arc
  (\<^verbatim>\<open>Get(1)\<close>) and its target (\<^verbatim>\<open>Get(2)\<close>).
\<close>

definition Iterator3 :: "ScMemory \<Rightarrow> ScAddr \<Rightarrow> ScType \<Rightarrow> ScType \<Rightarrow> (ScAddr \<times> ScAddr) list" where
  "Iterator3 m src edgeType nodeType =
     concat (map (\<lambda>(e, el).
        case el of
          ScNode t \<Rightarrow> []
        | ScEdge t s g \<Rightarrow>
            if s = src \<and> type_matches edgeType t
               \<and> (\<exists>n \<in> set m. fst n = g \<and> node_matches nodeType (snd n))
            then [(e, g)] else []) m)"

text \<open>
  \<^verbatim>\<open>Iterator5(src, t1, trg, t2, rel)\<close>: every arc \<open>e1\<close> of type \<open>t1\<close> from \<^verbatim>\<open>src\<close> to
  \<^verbatim>\<open>trg\<close> together with every arc \<open>e2\<close> of type \<open>t2\<close> from \<^verbatim>\<open>rel\<close> to \<open>e1\<close>; the
  result holds \<open>e1\<close> (\<^verbatim>\<open>Get(1)\<close>) and \<open>e2\<close> (\<^verbatim>\<open>Get(3)\<close>).
\<close>

definition Iterator5 ::
  "ScMemory \<Rightarrow> ScAddr \<Rightarrow> ScType \<Rightarrow> ScAddr \<Rightarrow> ScType \<Rightarrow> ScAddr \<Rightarrow> (ScAddr \<times> ScAddr) list" where
  "Iterator5 m src t1 trg t2 rel =
     concat (map (\<lambda>(e1, el1).
        if edge_matches src t1 trg el1
        then map (\<lambda>(e2, el2). (e1, e2)) (filter (\<lambda>(e2, el2). edge_matches rel t2 e1 el2) m)
        else []) m)"

text \<open>
  \<^verbatim>\<open>EraseElement(a)\<close> removes the element and, with it, every arc that starts or ends
  in a removed element. Arcs are created after their ends, so one pass over the
  elements in creation order finds them all.
\<close>

fun erase_from :: "ScAddr list \<Rightarrow> ScMemory \<Rightarrow> ScMemory" where
  "erase_from gone [] = []"
| "erase_from gone ((a, el) # m) =
     (if a \<in> set gone
         \<or> (case el of ScNode t \<Rightarrow> False | ScEdge t s g \<Rightarrow> s \<in> set gone \<or> g \<in> set gone)
      then erase_from (a # gone) m
      else (a, el) # erase_from gone m)"

definition EraseElement :: "ScAddr \<Rightarrow> ScMemory \<Rightarrow> ScMemory" where
  "EraseElement a m = erase_from [a] m"

text \<open>
  \<^verbatim>\<open>CreateEdge(type, src, trg)\<close> returns the handle of the new arc, or the empty handle
  when one of its ends is not an element of the store. The new handle is one that
  occurs nowhere in the store.
\<close>

fun mentioned :: "ScAddr \<times> ScElement \<Rightarrow> ScAddr list" where
  "mentioned (a, ScNode t) = [a]"
| "mentioned (a, ScEdge t s g) = [a, s, g]"

definition fresh_addr :: "ScMemory \<Rightarrow> ScAddr" where
  "fresh_addr m = Suc (fold max (concat (map mentioned m)) 0)"

definition CreateEdge :: "ScType \<Rightarrow> ScAddr \<Rightarrow> ScAddr \<Rightarrow> ScMemory \<Rightarrow> ScAddr \<times> ScMemory" where
  "CreateEdge t src trg m =
     (if IsElement m src \<and> IsElement m trg
      then (fresh_addr m, m @ [(fresh_addr m, ScEdge t src trg)])
      else (0, m))"

text \<open>
  The well-known handles (\<^verbatim>\<open>InferenceKeynodes\<close>, \<^verbatim>\<open>CoreKeynodes\<close>), resolved outside
  this file and taken as given.
\<close>

record Keynodes =
  rrel_main_key_sc_element :: ScAddr
  nrel_satisfiable_formula :: ScAddr
  knowledge_base_IMS :: ScAddr
  rrel_1 :: ScAddr

section \<open>Satisfiability bookkeeping\<close>

definition clearSatisfiabilityInformation :: "Keynodes \<Rightarrow> ScAddr \<Rightarrow> ScAddr \<Rightarrow> ScMemory \<Rightarrow> ScMemory" where
  "clearSatisfiabilityInformation K rule model m =
     fold (\<lambda>found. EraseElement (fst found))
       (Iterator5 m rule ScType_EdgeDCommon model ScType_EdgeAccess (nrel_satisfiable_formula K)) m"

definition addSatisfiabilityInformation ::
  "Keynodes \<Rightarrow> ScAddr \<Rightarrow> ScAddr \<Rightarrow> bool \<Rightarrow> ScMemory \<Rightarrow> ScMemory" where
  "addSatisfiabilityInformation K rule model isSatisfiable m =
     (let m1 = clearSatisfiabilityInformation K rule model m;
          (arc1, m2) = CreateEdge ScType_EdgeDCommonConst rule model m1;
          arcType = (if isSatisfiable then ScType_EdgeAccessConstPosTemp
                     else ScType_EdgeAccessConstNegTemp)
      in snd (CreateEdge arcType (nrel_satisfiable_formula K) arc1 m2))"

text \<open>
  The satisfiability records of a (rule, model) pair are what the iterator of
  \<^verbatim>\<open>clearSatisfiabilityInformation\<close> enumerates.
\<close>

definition satisfiabilityRecords :: "Keynodes \<Rightarrow> ScMemory \<Rightarrow> ScAddr \<Rightarrow> ScAddr \<Rightarrow> (ScAddr \<times> ScAddr) list" where
  "satisfiabilityRecords K m rule model =
     Iterator5 m rule ScType_EdgeDCommon model ScType_EdgeAccess (nrel_satisfiable_formula K)"

definition IsNode :: "ScMemory \<Rightarrow> ScAddr \<Rightarrow> bool" where
  "IsNode m a = (\<exists>n \<in> set m. fst n = a \<and> (case snd n of ScNode t \<Rightarrow> True | ScEdge t s g \<Rightarrow> False))"

section \<open>Collaborators of the manager\<close>

text \<open>
  An exception is a value. The only handler of the file (line 66) catches
  \<^verbatim>\<open>std::runtime_error\<close>; any other exception passes through it, and so does the
  \<^verbatim>\<open>std::bad_alloc\<close> of a container that can no longer grow.
\<close>

datatype exn = runtime_error string | bad_alloc | other_exception string

type_synonym ScTemplateParams = "(string \<times> ScAddr) list"

type_synonym ScTemplateSearchResultItem = "(string \<times> ScAddr) list"

text \<open>A built \<^verbatim>\<open>ScTemplate\<close>: the statement it was built from and the parameters given.\<close>

datatype ScTemplate = BuiltTemplate ScAddr ScTemplateParams

text \<open>
  What the collaborating objects can read and change: the store, and the parameters and
  input structure that the template searcher keeps.
\<close>

record World =
  ms_context :: ScMemory
  searcher_params :: "ScAddr list"
  searcher_inputStructure :: ScAddr

text \<open>
  The messages of \<^verbatim>\<open>SC_LOG_WARNING\<close> and \<^verbatim>\<open>SC_LOG_ERROR\<close>, one constructor for each
  call in the file. Where the text holds the system identifier of a rule, the entry holds
  the rule's handle.
\<close>

datatype LogEntry =
    Target_is_already_achieved
  | Rules_set_is_not_valid
  | Error_what string
  | No_rule_sets_found
  | Start_rule_applying nat
  | Using_rule ScAddr
  | Target_achieved_in_applyInterference
  | Trying_to_use_rule ScAddr
  | Whole_statement_is bool

record State =
  world :: World
  log :: "LogEntry list"

text \<open>
  The classes and helpers the file calls but does not define are parameters of the model.
  \<^item> \<^verbatim>\<open>templateManager->createTemplateParams\<close>, \<^verbatim>\<open>templateSearcher->searchTemplate\<close>,
    \<^verbatim>\<open>LogicExpression(...).build(key)->compute()\<close> (its truth value and the argument
    list, which it holds by reference) and \<^verbatim>\<open>solutionTreeGenerator->createSolution\<close>
    may change the world;
  \<^item> \<^verbatim>\<open>utils::IteratorUtils::getAllWithType\<close>, \<^verbatim>\<open>getAnyByOutRelation\<close> and
    \<^verbatim>\<open>getNextFromSet\<close> read the store and may throw;
  \<^item> \<^verbatim>\<open>ms_context->HelperSearchTemplate\<close> tells whether a built template is found,
    \<^verbatim>\<open>ms_context->HelperGenTemplate\<close> tells whether it generated and gives the new store;
  \<^item> memory is finite: \<open>vector_capacity\<close> is the number of queues that
    \<^verbatim>\<open>vector<queue<ScAddr>>\<close> takes before \<^verbatim>\<open>push_back\<close> fails with
    \<^verbatim>\<open>std::bad_alloc\<close>. The number depends on the machine.
\<close>

record Collaborators =
  createTemplateParams :: "World \<Rightarrow> ScAddr \<Rightarrow> ScAddr list \<Rightarrow> ScTemplateParams list \<times> World"
  searchTemplate :: "World \<Rightarrow> ScAddr \<Rightarrow> ScTemplateParams \<Rightarrow> ScTemplateSearchResultItem list \<times> World"
  logicExpression :: "World \<Rightarrow> ScAddr \<Rightarrow> ScAddr list \<Rightarrow> ScAddr \<Rightarrow> (bool \<times> ScAddr list) \<times> World"
  createSolution :: "World \<Rightarrow> bool \<Rightarrow> ScAddr \<times> World"
  getAllWithType :: "ScMemory \<Rightarrow> ScAddr \<Rightarrow> ScType \<Rightarrow> exn + ScAddr list"
  getAnyByOutRelation :: "ScMemory \<Rightarrow> ScAddr \<Rightarrow> ScAddr \<Rightarrow> exn + ScAddr"
  getNextFromSet :: "ScMemory \<Rightarrow> ScAddr \<Rightarrow> ScAddr \<Rightarrow> exn + ScAddr"
  HelperSearchTemplate :: "ScMemory \<Rightarrow> ScTemplate \<Rightarrow> bool"
  HelperGenTemplate :: "ScMemory \<Rightarrow> ScTemplate \<Rightarrow> ScTemplateParams \<Rightarrow> bool \<times> ScMemory"
  vector_capacity :: nat

text \<open>
  Modelled from the spec: \<^verbatim>\<open>templateSearcher->addParam\<close> and
  \<^verbatim>\<open>templateSearcher->setInputStructure\<close>, defined in the searcher's own file (``register
  each as a matcher parameter'').
\<close>

definition addParam :: "ScAddr \<Rightarrow> World \<Rightarrow> World" where
  "addParam a w = w\<lparr>searcher_params := searcher_params w @ [a]\<rparr>"

definition setInputStructure :: "ScAddr \<Rightarrow> World \<Rightarrow> World" where
  "setInputStructure a w = w\<lparr>searcher_inputStructure := a\<rparr>"

text \<open>
  Modelled from the spec: \<^verbatim>\<open>ContainersUtils::addToQueue\<close>, defined in
  \<^verbatim>\<open>utils/ContainersUtils.hpp\<close>: the elements are pushed onto the back of the queue,
  in their order (a \<^verbatim>\<open>std::queue\<close> takes new elements at its back only).
\<close>

definition addToQueue :: "ScAddr list \<Rightarrow> ScAddr list \<Rightarrow> ScAddr list" where
  "addToQueue elementList queue = queue @ elementList"

text \<open>\<^verbatim>\<open>HelperBuildTemplate\<close> with and without parameters.\<close>

definition HelperBuildTemplate :: "ScAddr \<Rightarrow> ScTemplateParams \<Rightarrow> ScTemplate" where
  "HelperBuildTemplate statement templateParams = BuiltTemplate statement templateParams"

section \<open>The functions of DirectInferenceManager.cpp\<close>

subsection \<open>createQueue, createRulesQueuesListByPriority\<close>

definition createQueue :: "Collaborators \<Rightarrow> ScMemory \<Rightarrow> ScAddr \<Rightarrow> exn + ScAddr list" where
  "createQueue C m set_addr =
     (case getAllWithType C m set_addr ScType_Node of
        Inl e \<Rightarrow> Inl e
      | Inr elementList \<Rightarrow> Inr (addToQueue elementList []))"

text \<open>
  The \<^verbatim>\<open>while (setOfRules.IsValid())\<close> loop of lines 158 to 162. Each turn builds the
  queue of the tier, pushes it onto the list and asks for the next tier. The list grows by
  one queue in every turn, so the loop ends: the chain ends, a helper throws, or
  \<^verbatim>\<open>push_back\<close> fails.
\<close>

function rulesQueuesLoop ::
  "Collaborators \<Rightarrow> ScMemory \<Rightarrow> ScAddr \<Rightarrow> ScAddr list list \<Rightarrow> ScAddr
     \<Rightarrow> exn + ScAddr list list" where
  "rulesQueuesLoop C m rulesSet rulesQueuesList setOfRules =
     (if IsValid setOfRules then
        (case createQueue C m setOfRules of
           Inl e \<Rightarrow> Inl e
         | Inr q \<Rightarrow>
             if length rulesQueuesList < vector_capacity C then
               (case getNextFromSet C m rulesSet setOfRules of
                  Inl e \<Rightarrow> Inl e
                | Inr next_set \<Rightarrow>
                    rulesQueuesLoop C m rulesSet (rulesQueuesList @ [q]) next_set)
             else Inl bad_alloc)
      else Inr rulesQueuesList)"
  by pat_completeness auto
termination
  by (relation "measure (\<lambda>(C, m, rulesSet, rulesQueuesList, setOfRules).
                           vector_capacity C - length rulesQueuesList)") auto

declare rulesQueuesLoop.simps [simp del]

definition createRulesQueuesListByPriority ::
  "Collaborators \<Rightarrow> Keynodes \<Rightarrow> ScMemory \<Rightarrow> ScAddr \<Rightarrow> exn + ScAddr list list" where
  "createRulesQueuesListByPriority C K m rulesSet =
     (case getAnyByOutRelation C m rulesSet (rrel_1 K) of
        Inl e \<Rightarrow> Inl e
      | Inr setOfRules \<Rightarrow> rulesQueuesLoop C m rulesSet [] setOfRules)"

subsection \<open>generateStatement\<close>

definition generateStatement ::
  "Collaborators \<Rightarrow> ScMemory \<Rightarrow> ScAddr \<Rightarrow> ScTemplateParams \<Rightarrow> bool \<times> ScMemory" where
  "generateStatement C m statement templateParams =
     (let result = False;
          searchTemplate = HelperBuildTemplate statement templateParams
      in if \<not> HelperSearchTemplate C m searchTemplate
         then (let statementTemplate = HelperBuildTemplate statement []
               in HelperGenTemplate C m statementTemplate templateParams)
         else (result, m))"

subsection \<open>isTargetAchieved\<close>

fun searchEach ::
  "Collaborators \<Rightarrow> World \<Rightarrow> ScAddr \<Rightarrow> ScTemplateParams list \<Rightarrow> bool \<times> World" where
  "searchEach C w targetStatement [] = (False, w)"
| "searchEach C w targetStatement (templateParams # rest) =
     (case searchTemplate C w targetStatement templateParams of
        (searchResult, w') \<Rightarrow>
          if searchResult \<noteq> [] then (True, w') else searchEach C w' targetStatement rest)"

definition isTargetAchieved ::
  "Collaborators \<Rightarrow> World \<Rightarrow> ScAddr \<Rightarrow> ScAddr list \<Rightarrow> bool \<times> World" where
  "isTargetAchieved C w targetStatement argumentList =
     (case createTemplateParams C w targetStatement argumentList of
        (vectorOfTemplateParams, w') \<Rightarrow> searchEach C w' targetStatement vectorOfTemplateParams)"

subsection \<open>useRule\<close>

definition useRule ::
  "Collaborators \<Rightarrow> Keynodes \<Rightarrow> ScAddr \<Rightarrow> ScAddr \<Rightarrow> ScAddr list \<Rightarrow> State
     \<Rightarrow> exn + ((bool \<times> ScAddr list) \<times> State)" where
  "useRule C K outputStructure rule argumentList s =
     (let s1 = s\<lparr>log := log s @ [Trying_to_use_rule rule]\<rparr>
      in case getAnyByOutRelation C (ms_context (world s1)) rule (rrel_main_key_sc_element K) of
           Inl e \<Rightarrow> Inl e
         | Inr keyScElement \<Rightarrow>
             if \<not> IsValid keyScElement then Inr ((False, argumentList), s1)
             else
               (case logicExpression C (world s1) keyScElement argumentList outputStructure of
                  ((result_value, argumentList'), w') \<Rightarrow>
                    Inr ((result_value, argumentList'),
                         \<lparr>world = w', log = log s1 @ [Whole_statement_is result_value]\<rparr>)))"

subsection \<open>applyInference\<close>

text \<open>The local variables of the main loop (lines 78 to 118) and the manager's state.\<close>

record Loop =
  ruleQueueIndex :: nat
  uncheckedRules :: "ScAddr list"
  checkedRuleList :: "ScAddr list"
  argumentList :: "ScAddr list"
  targetAchieved :: bool
  state :: State

definition updateMemory :: "(ScMemory \<Rightarrow> ScMemory) \<Rightarrow> State \<Rightarrow> State" where
  "updateMemory f s = s\<lparr>world := (world s)\<lparr>ms_context := f (ms_context (world s))\<rparr>\<rparr>"

definition writeLog :: "LogEntry \<Rightarrow> State \<Rightarrow> State" where
  "writeLog entry s = s\<lparr>log := log s @ [entry]\<rparr>"

text \<open>
  One turn of \<^verbatim>\<open>while (!uncheckedRules.empty())\<close> (lines 90 to 116) for the rule at the
  front of the queue. The result says whether the turn left the loop by \<^verbatim>\<open>break\<close>; a
  turn that does not break ends with \<^verbatim>\<open>uncheckedRules.pop()\<close>.
\<close>

definition whileBody ::
  "Collaborators \<Rightarrow> Keynodes \<Rightarrow> ScAddr \<Rightarrow> ScAddr \<Rightarrow> ScAddr \<Rightarrow> ScAddr \<Rightarrow> Loop
     \<Rightarrow> exn + (bool \<times> Loop)" where
  "whileBody C K targetStatement model outputStructure rule L =
     (let s1 = updateMemory (clearSatisfiabilityInformation K rule model) (state L);
          s2 = writeLog (Using_rule rule) s1
      in case useRule C K outputStructure rule (argumentList L) s2 of
           Inl e \<Rightarrow> Inl e
         | Inr ((isUsed, argumentList'), s3) \<Rightarrow>
             if isUsed then
               (let s4 = updateMemory (addSatisfiabilityInformation K rule model True) s3
                in case isTargetAchieved C (world s4) targetStatement argumentList' of
                     (achieved, w5) \<Rightarrow>
                       if achieved then
                         Inr (True,
                              L\<lparr>argumentList := argumentList', targetAchieved := True,
                                state := writeLog Target_achieved_in_applyInterference
                                           (s4\<lparr>world := w5\<rparr>)\<rparr>)
                       else
                         Inr (False,
                              L\<lparr>ruleQueueIndex := 0,
                                uncheckedRules :=
                                  tl (addToQueue (checkedRuleList L) (uncheckedRules L)),
                                checkedRuleList := [],
                                argumentList := argumentList', targetAchieved := False,
                                state := s4\<lparr>world := w5\<rparr>\<rparr>))
             else
               Inr (False,
                    L\<lparr>uncheckedRules := tl (uncheckedRules L),
                      checkedRuleList := checkedRuleList L @ [rule],
                      argumentList := argumentList',
                      state := updateMemory (addSatisfiabilityInformation K rule model False) s3\<rparr>))"

text \<open>
  Every turn that does not break either uses a rule, and then the two lists together lose
  one rule, or moves the front rule from the queue to the checked list. So the loop ends.
\<close>

definition loop_order :: "(Loop \<times> Loop) set" where
  "loop_order =
     inv_image (less_than <*lex*> less_than)
       (\<lambda>L. (length (uncheckedRules L) + length (checkedRuleList L), length (uncheckedRules L)))"

function whileLoop ::
  "Collaborators \<Rightarrow> Keynodes \<Rightarrow> ScAddr \<Rightarrow> ScAddr \<Rightarrow> ScAddr \<Rightarrow> Loop \<Rightarrow> exn + Loop" where
  "whileLoop C K targetStatement model outputStructure L =
     (case uncheckedRules L of
        [] \<Rightarrow> Inr L
      | rule # rest \<Rightarrow>
          (case whileBody C K targetStatement model outputStructure rule L of
             Inl e \<Rightarrow> Inl e
           | Inr (left_by_break, L') \<Rightarrow>
               if left_by_break then Inr L'
               else whileLoop C K targetStatement model outputStructure L'))"
  by pat_completeness auto
termination
proof (relation "inv_image loop_order (\<lambda>(C, K, targetStatement, model, outputStructure, L). L)")
  show "wf (inv_image loop_order (\<lambda>(C, K, targetStatement, model, outputStructure, L). L))"
    unfolding loop_order_def by (intro wf_inv_image wf_lex_prod wf_less_than)
next
  fix C K targetStatement model outputStructure L rule rest x left_by_break L'
  assume "uncheckedRules L = rule # rest"
    and "whileBody C K targetStatement model outputStructure rule L = Inr x"
    and "(left_by_break, L') = x"
    and "\<not> left_by_break"
  then have "whileBody C K targetStatement model outputStructure rule L = Inr (False, L')"
    by auto
  with \<open>uncheckedRules L = rule # rest\<close> have "(L', L) \<in> loop_order"
    by (auto simp: whileBody_def loop_order_def addToQueue_def Let_def
             split: sum.splits prod.splits if_splits)
  then show "((C, K, targetStatement, model, outputStructure, L'),
              (C, K, targetStatement, model, outputStructure, L))
             \<in> inv_image loop_order (\<lambda>(C, K, targetStatement, model, outputStructure, L). L)"
    by simp
qed

declare whileLoop.simps [simp del]

text \<open>
  The turns of the \<^verbatim>\<open>while\<close> loop that do not leave it: \<open>turns C K t model out L rs M\<close>
  says that, started with the loop variables \<open>L\<close>, the loop runs lines 90 to 116 for the
  rules \<open>rs\<close>, each at the front of the queue when its turn comes, and has the loop
  variables \<open>M\<close> after them.
\<close>

inductive turns ::
  "Collaborators \<Rightarrow> Keynodes \<Rightarrow> ScAddr \<Rightarrow> ScAddr \<Rightarrow> ScAddr \<Rightarrow> Loop \<Rightarrow> ScAddr list \<Rightarrow> Loop
     \<Rightarrow> bool" where
  no_turn: "turns C K targetStatement model outputStructure L [] L"
| one_more:
    "uncheckedRules L = rule # rest
     \<Longrightarrow> whileBody C K targetStatement model outputStructure rule L = Inr (False, L')
     \<Longrightarrow> turns C K targetStatement model outputStructure L' rs M
     \<Longrightarrow> turns C K targetStatement model outputStructure L (rule # rs) M"

code_pred turns .

text \<open>
  The \<^verbatim>\<open>for\<close> loop of lines 85 to 118. A successful rule sets \<^verbatim>\<open>ruleQueueIndex\<close> back,
  so nothing bounds the number of its turns: the model counts them, and \<open>None\<close> is a loop
  that is still running when the fuel is used up.
\<close>

fun forLoop ::
  "nat \<Rightarrow> Collaborators \<Rightarrow> Keynodes \<Rightarrow> ScAddr \<Rightarrow> ScAddr \<Rightarrow> ScAddr \<Rightarrow> ScAddr list list \<Rightarrow> Loop
     \<Rightarrow> (exn + Loop) option" where
  "forLoop fuel C K targetStatement model outputStructure rulesQueuesByPriority L =
     (if ruleQueueIndex L < length rulesQueuesByPriority \<and> \<not> targetAchieved L then
        (case fuel of
           0 \<Rightarrow> None
         | Suc n \<Rightarrow>
            (case whileLoop C K targetStatement model outputStructure
                    (L\<lparr>uncheckedRules := rulesQueuesByPriority ! ruleQueueIndex L\<rparr>) of
               Inl e \<Rightarrow> Some (Inl e)
             | Inr L' \<Rightarrow>
                 forLoop n C K targetStatement model outputStructure rulesQueuesByPriority
                   (L'\<lparr>ruleQueueIndex := ruleQueueIndex L' + 1\<rparr>)))
      else Some (Inr L))"

declare forLoop.simps [simp del]

definition returnSolution :: "Collaborators \<Rightarrow> bool \<Rightarrow> State \<Rightarrow> (exn + ScAddr \<times> State) option" where
  "returnSolution C achieved s =
     (case createSolution C (world s) achieved of
        (solution, w) \<Rightarrow> Some (Inr (solution, s\<lparr>world := w\<rparr>)))"

text \<open>Lines 36 to 45: the parameters of the searcher and the argument list.\<close>

definition collectArguments ::
  "Collaborators \<Rightarrow> ScAddr \<Rightarrow> State \<Rightarrow> exn + (ScAddr list \<times> State)" where
  "collectArguments C inputStructure s =
     (if IsValid inputStructure then
        (let s1 = s\<lparr>world :=
                     fold (\<lambda>found. addParam (snd found))
                       (Iterator3 (ms_context (world s)) inputStructure
                          ScType_EdgeAccessConstPosPerm ScType_Node)
                       (world s)\<rparr>
         in case getAllWithType C (ms_context (world s1)) inputStructure ScType_Node of
              Inl e \<Rightarrow> Inl e
            | Inr elementList \<Rightarrow> Inr (elementList, s1))
      else Inr ([], s))"

text \<open>Lines 55 to 118: the branch taken when the target is not achieved at line 49.\<close>

definition applyRules ::
  "nat \<Rightarrow> Collaborators \<Rightarrow> Keynodes \<Rightarrow> ScAddr \<Rightarrow> ScAddr \<Rightarrow> ScAddr \<Rightarrow> ScAddr \<Rightarrow> ScAddr list
     \<Rightarrow> State \<Rightarrow> (exn + ScAddr \<times> State) option" where
  "applyRules fuel C K targetStatement ruleSet inputStructure outputStructure arguments s =
     (if \<not> IsValid ruleSet then
        returnSolution C False (writeLog Rules_set_is_not_valid s)
      else
        (case createRulesQueuesListByPriority C K (ms_context (world s)) ruleSet of
           Inl (runtime_error what) \<Rightarrow>
             returnSolution C False (writeLog (Error_what what) s)
         | Inl bad_alloc \<Rightarrow> Some (Inl bad_alloc)
         | Inl (other_exception what) \<Rightarrow> Some (Inl (other_exception what))
         | Inr rulesQueuesByPriority \<Rightarrow>
             if rulesQueuesByPriority = [] then
               returnSolution C False (writeLog No_rule_sets_found s)
             else
               (let model = (if IsValid inputStructure then inputStructure
                             else knowledge_base_IMS K);
                    s1 = writeLog (Start_rule_applying (length rulesQueuesByPriority)) s
                in case forLoop fuel C K targetStatement model outputStructure
                          rulesQueuesByPriority
                          \<lparr>ruleQueueIndex = 0, uncheckedRules = [], checkedRuleList = [],
                           argumentList = arguments, targetAchieved = False, state = s1\<rparr> of
                     None \<Rightarrow> None
                   | Some (Inl e) \<Rightarrow> Some (Inl e)
                   | Some (Inr L) \<Rightarrow> returnSolution C (targetAchieved L) (state L))))"

definition applyInference ::
  "nat \<Rightarrow> Collaborators \<Rightarrow> Keynodes \<Rightarrow> ScAddr \<Rightarrow> ScAddr \<Rightarrow> ScAddr \<Rightarrow> ScAddr \<Rightarrow> State
     \<Rightarrow> (exn + ScAddr \<times> State) option" where
  "applyInference fuel C K targetTemplate ruleSet inputStructure outputStructure s =
     (case collectArguments C inputStructure s of
        Inl e \<Rightarrow> Some (Inl e)
      | Inr (arguments, s1) \<Rightarrow>
          if IsValid inputStructure \<and> arguments = [] then returnSolution C False s1
          else
            (let s2 = s1\<lparr>world := setInputStructure inputStructure (world s1)\<rparr>
             in case isTargetAchieved C (world s2) targetTemplate arguments of
                  (achieved, w3) \<Rightarrow>
                    if achieved then
                      returnSolution C achieved
                        (writeLog Target_is_already_achieved (s2\<lparr>world := w3\<rparr>))
                    else
                      applyRules fuel C K targetTemplate ruleSet inputStructure outputStructure
                        arguments (s2\<lparr>world := w3\<rparr>)))"

section \<open>A small knowledge base to run the manager on\<close>

text \<open>
  Nodes: two rules (1, 2), the whole-base marker (3), the satisfiability relation (4), the
  set of known facts (5) and four facts \<open>Pu\<close> (6), \<open>Qu\<close> (7), \<open>Pv\<close> (8), \<open>Qv\<close> (9). A
  fact is known when an arc leads from node 5 to it; at the start only \<open>Pu\<close> is known.
\<close>

definition K_ex :: Keynodes where
  "K_ex = \<lparr>rrel_main_key_sc_element = 40, nrel_satisfiable_formula = 4,
            knowledge_base_IMS = 3, rrel_1 = 41\<rparr>"

definition m_ex :: ScMemory where
  "m_ex = [(1, ScNode ScType_Node), (2, ScNode ScType_Node), (3, ScNode ScType_Node),
           (4, ScNode ScType_Node), (5, ScNode ScType_Node), (6, ScNode ScType_Node),
           (7, ScNode ScType_Node), (8, ScNode ScType_Node), (9, ScNode ScType_Node),
           (10, ScEdge ScType_EdgeAccessConstPosPerm 5 6)]"

definition known :: "ScMemory \<Rightarrow> ScAddr \<Rightarrow> bool" where
  "known m a = (a \<in> set (map snd (Iterator3 m 5 ScType_EdgeAccessConstPosPerm ScType_Node)))"

definition generate :: "ScAddr \<Rightarrow> World \<Rightarrow> World" where
  "generate a w =
     w\<lparr>ms_context := snd (CreateEdge ScType_EdgeAccessConstPosPerm 5 a (ms_context w))\<rparr>"

text \<open>
  The rule set 20 has the tiers 21 (rule 1) and 22 (rule 2). Rule 1, with key element 11,
  is ``\<open>P x\<close> gives \<open>Q x\<close>''; rule 2, with key element 12, is ``\<open>Qu\<close> gives \<open>Pv\<close>''.
  A rule is used when it adds a fact. A target is a fact, achieved when it is known.
\<close>

definition C_ex :: Collaborators where
  "C_ex = \<lparr>
     createTemplateParams = (\<lambda>w target arguments. ([[]], w)),
     searchTemplate = (\<lambda>w target templateParams.
        (if known (ms_context w) target then [[]] else [], w)),
     logicExpression = (\<lambda>w key arguments outputStructure.
        if key = 11 then
          (if known (ms_context w) 6 \<and> \<not> known (ms_context w) 7
           then ((True, arguments), generate 7 w)
           else if known (ms_context w) 8 \<and> \<not> known (ms_context w) 9
           then ((True, arguments), generate 9 w)
           else ((False, arguments), w))
        else if key = 12 then
          (if known (ms_context w) 7 \<and> \<not> known (ms_context w) 8
           then ((True, arguments), generate 8 w)
           else ((False, arguments), w))
        else ((False, arguments), w)),
     createSolution = (\<lambda>w achieved. (if achieved then 100 else 101, w)),
     getAllWithType = (\<lambda>m set_addr t.
        if set_addr = 21 then Inr [1] else if set_addr = 22 then Inr [2]
        else Inr (map snd (Iterator3 m set_addr ScType_EdgeAccessConstPosPerm t))),
     getAnyByOutRelation = (\<lambda>m a rel.
        if rel = 41 \<and> a = 20 then Inr 21
        else if rel = 40 \<and> (a = 1 \<or> a = 2) then Inr (a + 10)
        else Inr 0),
     getNextFromSet = (\<lambda>m set_addr previous.
        if set_addr = 20 \<and> previous = 21 then Inr 22 else Inr 0),
     HelperSearchTemplate = (\<lambda>m t. case t of BuiltTemplate statement ps \<Rightarrow> known m statement),
     HelperGenTemplate = (\<lambda>m t ps. case t of BuiltTemplate statement qs \<Rightarrow>
        (True, snd (CreateEdge ScType_EdgeAccessConstPosPerm 5 statement m))),
     vector_capacity = 4\<rparr>"

definition s_ex :: State where
  "s_ex = \<lparr>world = \<lparr>ms_context = m_ex, searcher_params = [], searcher_inputStructure = 0\<rparr>,
           log = []\<rparr>"

text \<open>The same collaborators with rules that always hold and add nothing.\<close>

definition C_always :: Collaborators where
  "C_always = C_ex\<lparr>logicExpression :=
      (\<lambda>w key arguments outputStructure. ((True, arguments), w))\<rparr>"

text \<open>The same collaborators with a rule set whose tiers follow each other in a cycle.\<close>

definition C_cyclic :: Collaborators where
  "C_cyclic = C_ex\<lparr>getNextFromSet :=
      (\<lambda>m set_addr previous. if previous = 21 then Inr 22 else Inr 21)\<rparr>"

text \<open>A searcher that keeps, in its parameters, the bindings it was asked to search.\<close>

definition C_trace :: Collaborators where
  "C_trace = C_ex\<lparr>
     createTemplateParams := (\<lambda>w target arguments. (map (\<lambda>a. [(''_x'', a)]) arguments, w)),
     searchTemplate := (\<lambda>w target templateParams.
        (if \<exists>x \<in> set templateParams. known (ms_context w) (snd x) then [templateParams] else [],
         w\<lparr>searcher_params := searcher_params w @ map snd templateParams\<rparr>))\<rparr>"

text \<open>The same collaborators with a helper that throws when asked for the next tier.\<close>

definition C_throw :: Collaborators where
  "C_throw = C_ex\<lparr>getNextFromSet :=
      (\<lambda>m set_addr previous. Inl (runtime_error ''no next tier''))\<rparr>"

text \<open>
  The loop variables in its second tier, with \<open>Qu\<close> known: rule 2 is at the front of
  the queue and rule 1 has failed before.
\<close>

definition L_ex :: Loop where
  "L_ex = \<lparr>ruleQueueIndex = 1, uncheckedRules = [2], checkedRuleList = [1], argumentList = [],
           targetAchieved = False,
           state = \<lparr>world = \<lparr>ms_context = m_ex @ [(11, ScEdge ScType_EdgeAccessConstPosPerm 5 7)],
                              searcher_params = [], searcher_inputStructure = 0\<rparr>,
                    log = []\<rparr>\<rparr>"

text \<open>
  The loop variables at the start of a tier with the queue 3, 1, 2, where node 3 has no
  key element.
\<close>

definition L_three :: Loop where
  "L_three = \<lparr>ruleQueueIndex = 0, uncheckedRules = [3, 1, 2], checkedRuleList = [],
               argumentList = [], targetAchieved = False, state = s_ex\<rparr>"

section \<open>Facts about the store\<close>

lemma type_facts:
  "type_matches ScType_EdgeDCommon ScType_EdgeDCommonConst"
  "\<not> type_matches ScType_EdgeAccess ScType_EdgeDCommonConst"
  "type_matches ScType_EdgeAccess ScType_EdgeAccessConstPosTemp"
  "type_matches ScType_EdgeAccess ScType_EdgeAccessConstNegTemp"
  "\<not> type_matches ScType_EdgeDCommon ScType_EdgeAccessConstPosTemp"
  "\<not> type_matches ScType_EdgeDCommon ScType_EdgeAccessConstNegTemp"
  by (simp_all add: type_matches_def ScType_EdgeDCommon_def ScType_EdgeDCommonConst_def
        ScType_EdgeAccess_def ScType_EdgeAccessConstPosTemp_def ScType_EdgeAccessConstNegTemp_def)

lemma erase_from_subset: "set (erase_from gone m) \<subseteq> set m"
proof (induction m arbitrary: gone)
  case Nil
  then show ?case by simp
next
  case (Cons x m)
  obtain b el where x: "x = (b, el)" by (cases x)
  show ?case using Cons.IH[of gone] Cons.IH[of "b # gone"]
    by (auto simp: x)
qed

lemma erase_from_gone: "a \<in> set gone \<Longrightarrow> a \<notin> fst ` set (erase_from gone m)"
proof (induction m arbitrary: gone)
  case Nil
  then show ?case by simp
next
  case (Cons x m)
  obtain b el where x: "x = (b, el)" by (cases x)
  show ?case using Cons.IH[of gone] Cons.IH[of "b # gone"] Cons.prems
    by (auto simp: x)
qed

lemma erase_from_keeps_node:
  "distinct (map fst m) \<Longrightarrow> (a, ScNode t) \<in> set m \<Longrightarrow> a \<notin> set gone
     \<Longrightarrow> (a, ScNode t) \<in> set (erase_from gone m)"
proof (induction m arbitrary: gone)
  case Nil
  then show ?case by simp
next
  case (Cons x m)
  obtain b el where x: "x = (b, el)" by (cases x)
  show ?case
  proof (cases "(a, ScNode t) = x")
    case True
    then show ?thesis using Cons.prems by (auto simp: x)
  next
    case False
    then have in_m: "(a, ScNode t) \<in> set m" using Cons.prems by simp
    then have "a \<noteq> b" using Cons.prems(1) by (force simp: x)
    then show ?thesis using Cons.IH[of gone] Cons.IH[of "b # gone"] Cons.prems in_m
      by (auto simp: x)
  qed
qed

lemma erase_from_distinct: "distinct (map fst m) \<Longrightarrow> distinct (map fst (erase_from gone m))"
proof (induction m arbitrary: gone)
  case Nil
  then show ?case by simp
next
  case (Cons x m)
  obtain b el where x: "x = (b, el)" by (cases x)
  have "b \<notin> fst ` set m \<Longrightarrow> b \<notin> fst ` set (erase_from gone m)"
    using erase_from_subset[of gone m] by auto
  then show ?case using Cons by (auto simp: x)
qed

lemma Iterator5_iff:
  "(e1, e2) \<in> set (Iterator5 m src t1 trg t2 rel) \<longleftrightarrow>
     (\<exists>el1 el2. (e1, el1) \<in> set m \<and> edge_matches src t1 trg el1
               \<and> (e2, el2) \<in> set m \<and> edge_matches rel t2 e1 el2)"
proof
  assume "(e1, e2) \<in> set (Iterator5 m src t1 trg t2 rel)"
  then show "\<exists>el1 el2. (e1, el1) \<in> set m \<and> edge_matches src t1 trg el1
               \<and> (e2, el2) \<in> set m \<and> edge_matches rel t2 e1 el2"
    by (auto simp: Iterator5_def split: if_splits)
next
  assume "\<exists>el1 el2. (e1, el1) \<in> set m \<and> edge_matches src t1 trg el1
               \<and> (e2, el2) \<in> set m \<and> edge_matches rel t2 e1 el2"
  then obtain el1 el2 where h: "(e1, el1) \<in> set m" "edge_matches src t1 trg el1"
     "(e2, el2) \<in> set m" "edge_matches rel t2 e1 el2" by blast
  have "(e1, e2) \<in> set (map (\<lambda>(e2, el2). (e1, e2))
           (filter (\<lambda>(e2, el2). edge_matches rel t2 e1 el2) m))"
    using h(3,4) by force
  then show "(e1, e2) \<in> set (Iterator5 m src t1 trg t2 rel)"
    unfolding Iterator5_def using h(1,2) by (auto intro!: bexI[of _ "(e1, el1)"])
qed


lemma fold_erase_subset: "set (fold (\<lambda>found. EraseElement (fst found)) rs m) \<subseteq> set m"
proof (induction rs arbitrary: m)
  case Nil
  then show ?case by simp
next
  case (Cons r rs)
  have "set (fold (\<lambda>found. EraseElement (fst found)) rs (EraseElement (fst r) m))
          \<subseteq> set (EraseElement (fst r) m)"
    by (rule Cons.IH)
  also have "\<dots> \<subseteq> set m"
    by (simp add: EraseElement_def erase_from_subset)
  finally show ?case by simp
qed

lemma fold_erase_gone:
  "r \<in> set rs \<Longrightarrow> fst r \<notin> fst ` set (fold (\<lambda>found. EraseElement (fst found)) rs m)"
proof (induction rs arbitrary: m)
  case Nil
  then show ?case by simp
next
  case (Cons x rs)
  show ?case
  proof (cases "r = x")
    case True
    have "fst x \<notin> fst ` set (EraseElement (fst x) m)"
      by (simp add: EraseElement_def erase_from_gone)
    moreover have "set (fold (\<lambda>found. EraseElement (fst found)) rs (EraseElement (fst x) m))
          \<subseteq> set (EraseElement (fst x) m)"
      by (rule fold_erase_subset)
    ultimately show ?thesis using True by auto
  next
    case False
    then have "r \<in> set rs" using Cons.prems by simp
    then show ?thesis using Cons.IH by simp
  qed
qed

lemma clear_no_records:
  "satisfiabilityRecords K (clearSatisfiabilityInformation K rule model m) rule model = []"
proof -
  let ?rs = "Iterator5 m rule ScType_EdgeDCommon model ScType_EdgeAccess (nrel_satisfiable_formula K)"
  let ?m' = "fold (\<lambda>found. EraseElement (fst found)) ?rs m"
  have sub: "set ?m' \<subseteq> set m" by (rule fold_erase_subset)
  have "p \<notin> set (Iterator5 ?m' rule ScType_EdgeDCommon model ScType_EdgeAccess (nrel_satisfiable_formula K))" for p
  proof
    assume p: "p \<in> set (Iterator5 ?m' rule ScType_EdgeDCommon model ScType_EdgeAccess (nrel_satisfiable_formula K))"
    obtain e1 e2 where pe: "p = (e1, e2)" by (cases p)
    from p obtain el1 el2 where h: "(e1, el1) \<in> set ?m'" "edge_matches rule ScType_EdgeDCommon model el1"
       "(e2, el2) \<in> set ?m'" "edge_matches (nrel_satisfiable_formula K) ScType_EdgeAccess e1 el2"
      unfolding pe Iterator5_iff by blast
    then have "(e1, e2) \<in> set ?rs"
      unfolding Iterator5_iff using sub by blast
    then have "fst (e1, e2) \<notin> fst ` set ?m'" by (rule fold_erase_gone)
    then show False using h(1) by force
  qed
  then have "Iterator5 ?m' rule ScType_EdgeDCommon model ScType_EdgeAccess (nrel_satisfiable_formula K) = []"
    by (cases "Iterator5 ?m' rule ScType_EdgeDCommon model ScType_EdgeAccess (nrel_satisfiable_formula K)") auto
  then show ?thesis
    by (simp add: satisfiabilityRecords_def clearSatisfiabilityInformation_def)
qed

lemma clear_twice:
  "clearSatisfiabilityInformation K rule model (clearSatisfiabilityInformation K rule model m)
     = clearSatisfiabilityInformation K rule model m"
  using clear_no_records[of K rule model m]
  by (simp add: satisfiabilityRecords_def clearSatisfiabilityInformation_def[of K rule model "clearSatisfiabilityInformation K rule model m"])

lemma fold_max_ge: "b \<le> fold max xs (b::nat)" 
  by (induction xs arbitrary: b) (auto intro: order_trans[OF max.cobounded2])

lemma fold_max_mem: "x \<in> set xs \<Longrightarrow> x \<le> fold max xs (b::nat)"
proof (induction xs arbitrary: b)
  case Nil
  then show ?case by simp
next
  case (Cons y ys)
  show ?case
  proof (cases "x = y")
    case True
    have "y \<le> max y b" by simp
    also have "\<dots> \<le> fold max ys (max y b)" by (rule fold_max_ge)
    finally show ?thesis using True by simp
  next
    case False
    then show ?thesis using Cons by simp
  qed
qed

lemma fresh_addr_above: "entry \<in> set m \<Longrightarrow> x \<in> set (mentioned entry) \<Longrightarrow> x < fresh_addr m"
proof -
  assume "entry \<in> set m" "x \<in> set (mentioned entry)"
  then have "x \<in> set (concat (map mentioned m))" by auto
  then have "x \<le> fold max (concat (map mentioned m)) 0" by (rule fold_max_mem)
  then show ?thesis by (simp add: fresh_addr_def)
qed

lemma fresh_addr_not_element: "\<not> IsElement m (fresh_addr m)"
proof
  assume "IsElement m (fresh_addr m)"
  then obtain el where "(fresh_addr m, el) \<in> set m" by (auto simp: IsElement_def)
  moreover have "fresh_addr m \<in> set (mentioned (fresh_addr m, el))" by (cases el) auto
  ultimately have "fresh_addr m < fresh_addr m" by (rule fresh_addr_above)
  then show False by simp
qed


lemma Iterator5_empty_iff:
  "Iterator5 m src t1 trg t2 rel = [] \<longleftrightarrow>
     (\<forall>e1 el1 e2 el2. (e1, el1) \<in> set m \<and> edge_matches src t1 trg el1
               \<and> (e2, el2) \<in> set m \<longrightarrow> \<not> edge_matches rel t2 e1 el2)"
proof -
  have "Iterator5 m src t1 trg t2 rel = [] \<longleftrightarrow> set (Iterator5 m src t1 trg t2 rel) = {}"
    by simp
  also have "\<dots> \<longleftrightarrow> (\<forall>e1 e2. (e1, e2) \<notin> set (Iterator5 m src t1 trg t2 rel))"
    by (simp only: set_eq_iff split_paired_All empty_iff simp_thms)
  finally show ?thesis unfolding Iterator5_iff by blast
qed

lemma two_new_arcs_one_record:
  assumes norec: "Iterator5 m1 rule ScType_EdgeDCommon model ScType_EdgeAccess nrel = []"
    and tv: "type_matches ScType_EdgeAccess tv" "\<not> type_matches ScType_EdgeDCommon tv"
    and f1: "\<forall>entry \<in> set m1. \<forall>x \<in> set (mentioned entry). x < f1"
  shows "Iterator5 (m1 @ [(f1, ScEdge ScType_EdgeDCommonConst rule model), (f2, ScEdge tv nrel f1)])
            rule ScType_EdgeDCommon model ScType_EdgeAccess nrel = [(f1, f2)]"
proof -
  let ?x = "(f1, ScEdge ScType_EdgeDCommonConst rule model)"
  let ?y = "(f2, ScEdge tv nrel f1)"
  let ?P = "\<lambda>e1. (\<lambda>(e2, el2). edge_matches nrel ScType_EdgeAccess e1 el2)"
  have no_target: "\<not> edge_matches nrel ScType_EdgeAccess f1 el2" if "(e2, el2) \<in> set m1" for e2 el2
  proof (cases el2)
    case (ScNode t)
    then show ?thesis by simp
  next
    case (ScEdge t s g)
    then have "g \<in> set (mentioned (e2, el2))" by simp
    then have "g < f1" using f1 that by blast
    then show ?thesis using ScEdge by simp
  qed
  have old_addr: "e1 \<noteq> f1" if "(e1, el1) \<in> set m1" for e1 el1
  proof -
    have "e1 \<in> set (mentioned (e1, el1))" by (cases el1) auto
    then have "e1 < f1" using f1 that by blast
    then show ?thesis by simp
  qed
  have old_part: "filter (?P e1) (m1 @ [?x, ?y]) = []"
    if "(e1, el1) \<in> set m1" "edge_matches rule ScType_EdgeDCommon model el1" for e1 el1
  proof -
    have "filter (?P e1) m1 = []"
      using norec that unfolding Iterator5_empty_iff by (auto simp: filter_empty_conv)
    moreover have "\<not> ?P e1 ?x" by (simp add: type_facts)
    moreover have "\<not> ?P e1 ?y" using old_addr[OF that(1)] by simp
    ultimately show ?thesis by simp
  qed
  have new_part: "filter (?P f1) (m1 @ [?x, ?y]) = [?y]"
  proof -
    have "filter (?P f1) m1 = []" using no_target by (auto simp: filter_empty_conv)
    moreover have "\<not> ?P f1 ?x" by (simp add: type_facts)
    moreover have "?P f1 ?y" using tv by simp
    ultimately show ?thesis by simp
  qed
  have y_no: "\<not> edge_matches rule ScType_EdgeDCommon model (ScEdge tv nrel f1)"
    using tv by simp
  have x_yes: "edge_matches rule ScType_EdgeDCommon model (ScEdge ScType_EdgeDCommonConst rule model)"
    by (simp add: type_facts)
  show ?thesis
    unfolding Iterator5_def using old_part new_part y_no x_yes
    by (auto simp del: filter_append filter.simps edge_matches.simps)
qed


lemma fold_erase_distinct:
  "distinct (map fst m) \<Longrightarrow> distinct (map fst (fold (\<lambda>found. EraseElement (fst found)) rs m))"
  by (induction rs arbitrary: m) (simp_all add: EraseElement_def erase_from_distinct)

lemma fold_erase_keeps_node:
  "distinct (map fst m) \<Longrightarrow> (a, ScNode t) \<in> set m \<Longrightarrow> a \<notin> fst ` set rs
     \<Longrightarrow> (a, ScNode t) \<in> set (fold (\<lambda>found. EraseElement (fst found)) rs m)"
proof (induction rs arbitrary: m)
  case Nil
  then show ?case by simp
next
  case (Cons r rs)
  have "distinct (map fst (EraseElement (fst r) m))"
    using Cons.prems(1) by (simp add: EraseElement_def erase_from_distinct)
  moreover have "(a, ScNode t) \<in> set (EraseElement (fst r) m)"
    unfolding EraseElement_def using Cons.prems by (intro erase_from_keeps_node) auto
  moreover have "a \<notin> fst ` set rs" using Cons.prems by auto
  ultimately show ?case using Cons.IH by simp
qed

lemma IsNode_iff: "IsNode m a \<longleftrightarrow> (\<exists>t. (a, ScNode t) \<in> set m)"
proof
  assume "IsNode m a"
  then obtain n where n: "n \<in> set m" "fst n = a"
      "case snd n of ScNode t \<Rightarrow> True | ScEdge t s g \<Rightarrow> False"
    unfolding IsNode_def by blast
  then obtain t where "snd n = ScNode t" by (cases "snd n") auto
  then have "n = (a, ScNode t)" using n(2) by (cases n) auto
  then show "\<exists>t. (a, ScNode t) \<in> set m" using n(1) by blast
next
  assume "\<exists>t. (a, ScNode t) \<in> set m"
  then show "IsNode m a" unfolding IsNode_def by force
qed

lemma clear_distinct:
  "distinct (map fst m) \<Longrightarrow> distinct (map fst (clearSatisfiabilityInformation K rule model m))"
  by (simp add: clearSatisfiabilityInformation_def fold_erase_distinct)

lemma clear_keeps_node:
  assumes "distinct (map fst m)" and "IsNode m a"
  shows "IsNode (clearSatisfiabilityInformation K rule model m) a"
proof -
  let ?rs = "Iterator5 m rule ScType_EdgeDCommon model ScType_EdgeAccess (nrel_satisfiable_formula K)"
  from assms(2) obtain t where t: "(a, ScNode t) \<in> set m" unfolding IsNode_iff by blast
  have "a \<notin> fst ` set ?rs"
  proof
    assume "a \<in> fst ` set ?rs"
    then obtain e2 where "(a, e2) \<in> set ?rs" by force
    then obtain el1 where el1: "(a, el1) \<in> set m" "edge_matches rule ScType_EdgeDCommon model el1"
      unfolding Iterator5_iff by blast
    then have "el1 = ScNode t" using t assms(1) by (meson eq_key_imp_eq_value)
    then show False using el1(2) by simp
  qed
  then have "(a, ScNode t) \<in> set (fold (\<lambda>found. EraseElement (fst found)) ?rs m)"
    using assms(1) t by (intro fold_erase_keeps_node)
  then show ?thesis unfolding IsNode_iff clearSatisfiabilityInformation_def by blast
qed

lemma IsNode_IsElement: "IsNode m a \<Longrightarrow> IsElement m a"
  by (force simp: IsNode_def IsElement_def)

lemma add_unfold:
  assumes "distinct (map fst m)" and "IsNode m rule" and "IsNode m model"
    and "IsNode m (nrel_satisfiable_formula K)"
  shows "addSatisfiabilityInformation K rule model v m
           = clearSatisfiabilityInformation K rule model m
             @ [(fresh_addr (clearSatisfiabilityInformation K rule model m),
                   ScEdge ScType_EdgeDCommonConst rule model),
                (fresh_addr (clearSatisfiabilityInformation K rule model m
                     @ [(fresh_addr (clearSatisfiabilityInformation K rule model m),
                         ScEdge ScType_EdgeDCommonConst rule model)]),
                   ScEdge (if v then ScType_EdgeAccessConstPosTemp else ScType_EdgeAccessConstNegTemp)
                     (nrel_satisfiable_formula K)
                     (fresh_addr (clearSatisfiabilityInformation K rule model m)))]"
proof -
  define m1 where "m1 = clearSatisfiabilityInformation K rule model m"
  define f1 where "f1 = fresh_addr m1"
  define m2 where "m2 = m1 @ [(f1, ScEdge ScType_EdgeDCommonConst rule model)]"
  define tv where "tv = (if v then ScType_EdgeAccessConstPosTemp else ScType_EdgeAccessConstNegTemp)"
  have e1: "IsElement m1 rule" "IsElement m1 model" "IsElement m1 (nrel_satisfiable_formula K)"
    unfolding m1_def using assms(1-4) by (auto intro!: IsNode_IsElement clear_keeps_node)
  then have c1: "CreateEdge ScType_EdgeDCommonConst rule model m1 = (f1, m2)"
    by (simp add: CreateEdge_def f1_def m2_def)
  have "IsElement m2 (nrel_satisfiable_formula K)" "IsElement m2 f1"
    using e1 by (auto simp: m2_def IsElement_def)
  then have c2: "CreateEdge tv (nrel_satisfiable_formula K) f1 m2
                   = (fresh_addr m2, m2 @ [(fresh_addr m2, ScEdge tv (nrel_satisfiable_formula K) f1)])"
    by (simp add: CreateEdge_def)
  have "addSatisfiabilityInformation K rule model v m
          = m2 @ [(fresh_addr m2, ScEdge tv (nrel_satisfiable_formula K) f1)]"
    unfolding addSatisfiabilityInformation_def Let_def m1_def[symmetric] c1 prod.case
      tv_def[symmetric] c2 by simp
  then show ?thesis
    by (simp add: m2_def f1_def m1_def tv_def)
qed

lemma add_one_record:
  assumes "distinct (map fst m)" and "IsNode m rule" and "IsNode m model"
    and "IsNode m (nrel_satisfiable_formula K)"
  shows "\<exists>arc1 arc2.
           satisfiabilityRecords K (addSatisfiabilityInformation K rule model v m) rule model
             = [(arc1, arc2)]
         \<and> (arc1, ScEdge ScType_EdgeDCommonConst rule model)
             \<in> set (addSatisfiabilityInformation K rule model v m)
         \<and> (arc2, ScEdge (if v then ScType_EdgeAccessConstPosTemp else ScType_EdgeAccessConstNegTemp)
                    (nrel_satisfiable_formula K) arc1)
             \<in> set (addSatisfiabilityInformation K rule model v m)"
proof -
  let ?m1 = "clearSatisfiabilityInformation K rule model m"
  let ?f1 = "fresh_addr ?m1"
  let ?m2 = "?m1 @ [(?f1, ScEdge ScType_EdgeDCommonConst rule model)]"
  let ?tv = "(if v then ScType_EdgeAccessConstPosTemp else ScType_EdgeAccessConstNegTemp)"
  have eq: "addSatisfiabilityInformation K rule model v m
           = ?m1 @ [(?f1, ScEdge ScType_EdgeDCommonConst rule model),
                   (fresh_addr ?m2, ScEdge ?tv (nrel_satisfiable_formula K) ?f1)]"
    using assms by (rule add_unfold)
  have norec: "Iterator5 ?m1 rule ScType_EdgeDCommon model ScType_EdgeAccess (nrel_satisfiable_formula K) = []"
    using clear_no_records[of K rule model m] by (simp add: satisfiabilityRecords_def)
  have tv: "type_matches ScType_EdgeAccess ?tv" "\<not> type_matches ScType_EdgeDCommon ?tv"
    by (simp_all add: type_facts)
  have above: "\<forall>entry \<in> set ?m1. \<forall>x \<in> set (mentioned entry). x < ?f1"
    using fresh_addr_above by blast
  have "Iterator5 (?m1 @ [(?f1, ScEdge ScType_EdgeDCommonConst rule model),
                   (fresh_addr ?m2, ScEdge ?tv (nrel_satisfiable_formula K) ?f1)])
          rule ScType_EdgeDCommon model ScType_EdgeAccess (nrel_satisfiable_formula K)
        = [(?f1, fresh_addr ?m2)]"
    using norec tv above by (rule two_new_arcs_one_record)
  then show ?thesis
    unfolding satisfiabilityRecords_def eq by (intro exI[of _ ?f1] exI[of _ "fresh_addr ?m2"]) simp
qed

lemma add_preserves:
  assumes "distinct (map fst m)" and "IsNode m rule" and "IsNode m model"
    and "IsNode m (nrel_satisfiable_formula K)"
  shows "distinct (map fst (addSatisfiabilityInformation K rule model v m))"
    and "IsNode m a \<Longrightarrow> IsNode (addSatisfiabilityInformation K rule model v m) a"
proof -
  let ?m1 = "clearSatisfiabilityInformation K rule model m"
  let ?f1 = "fresh_addr ?m1"
  let ?m2 = "?m1 @ [(?f1, ScEdge ScType_EdgeDCommonConst rule model)]"
  let ?tv = "(if v then ScType_EdgeAccessConstPosTemp else ScType_EdgeAccessConstNegTemp)"
  have eq: "addSatisfiabilityInformation K rule model v m
           = ?m2 @ [(fresh_addr ?m2, ScEdge ?tv (nrel_satisfiable_formula K) ?f1)]"
    using add_unfold[OF assms, of v] by simp
  have d1: "distinct (map fst ?m1)" using assms(1) by (rule clear_distinct)
  have "\<not> IsElement ?m1 ?f1" by (rule fresh_addr_not_element)
  then have d2: "distinct (map fst ?m2)" using d1 by (simp add: IsElement_def)
  have "\<not> IsElement ?m2 (fresh_addr ?m2)" by (rule fresh_addr_not_element)
  then show "distinct (map fst (addSatisfiabilityInformation K rule model v m))"
    unfolding eq using d2 by (simp add: IsElement_def)
  assume "IsNode m a"
  then have "IsNode ?m1 a" using assms(1) by (intro clear_keeps_node)
  then show "IsNode (addSatisfiabilityInformation K rule model v m) a"
    unfolding eq IsNode_iff by auto
qed

section \<open>Satisfiability records\<close>

text \<open>
  Claim C3. After \<^verbatim>\<open>addSatisfiabilityInformation(rule, model, verdict)\<close> exactly one
  satisfiability record exists for the pair: the old records are erased first and one arc
  from rule to model is written, with one arc from the satisfiability relation to it whose
  type is positive for \<open>True\<close> and negative for \<open>False\<close>. A second call, after any first
  verdict, again leaves exactly one record, that of the second verdict.
  \<^verbatim>\<open>clearSatisfiabilityInformation\<close> leaves no record for the pair, and calling it again
  changes nothing. The rule, the model and the relation are nodes of a store whose
  handles are distinct.
\<close>

theorem addSatisfiabilityInformation_exactly_one_record:
  assumes "distinct (map fst m)" and "IsNode m rule" and "IsNode m model"
    and "IsNode m (nrel_satisfiable_formula K)"
  shows "(\<exists>arc1 arc2.
            satisfiabilityRecords K (addSatisfiabilityInformation K rule model v m) rule model
              = [(arc1, arc2)]
          \<and> (arc1, ScEdge ScType_EdgeDCommonConst rule model)
              \<in> set (addSatisfiabilityInformation K rule model v m)
          \<and> (arc2, ScEdge (if v then ScType_EdgeAccessConstPosTemp
                             else ScType_EdgeAccessConstNegTemp)
                     (nrel_satisfiable_formula K) arc1)
              \<in> set (addSatisfiabilityInformation K rule model v m))
       \<and> (\<exists>arc1 arc2.
            satisfiabilityRecords K
              (addSatisfiabilityInformation K rule model v
                 (addSatisfiabilityInformation K rule model v' m)) rule model
              = [(arc1, arc2)]
          \<and> (arc2, ScEdge (if v then ScType_EdgeAccessConstPosTemp
                             else ScType_EdgeAccessConstNegTemp)
                     (nrel_satisfiable_formula K) arc1)
              \<in> set (addSatisfiabilityInformation K rule model v
                        (addSatisfiabilityInformation K rule model v' m)))
       \<and> satisfiabilityRecords K (clearSatisfiabilityInformation K rule model m) rule model = []
       \<and> clearSatisfiabilityInformation K rule model
            (clearSatisfiabilityInformation K rule model m)
          = clearSatisfiabilityInformation K rule model m"
proof -
  let ?m' = "addSatisfiabilityInformation K rule model v' m"
  have first: "\<exists>arc1 arc2.
            satisfiabilityRecords K (addSatisfiabilityInformation K rule model v m) rule model
              = [(arc1, arc2)]
          \<and> (arc1, ScEdge ScType_EdgeDCommonConst rule model)
              \<in> set (addSatisfiabilityInformation K rule model v m)
          \<and> (arc2, ScEdge (if v then ScType_EdgeAccessConstPosTemp
                             else ScType_EdgeAccessConstNegTemp)
                     (nrel_satisfiable_formula K) arc1)
              \<in> set (addSatisfiabilityInformation K rule model v m)"
    using assms by (rule add_one_record)
  have "distinct (map fst ?m')" "IsNode ?m' rule" "IsNode ?m' model"
    "IsNode ?m' (nrel_satisfiable_formula K)"
    using add_preserves[OF assms] assms by blast+
  then have "\<exists>arc1 arc2.
            satisfiabilityRecords K (addSatisfiabilityInformation K rule model v ?m') rule model
              = [(arc1, arc2)]
          \<and> (arc1, ScEdge ScType_EdgeDCommonConst rule model)
              \<in> set (addSatisfiabilityInformation K rule model v ?m')
          \<and> (arc2, ScEdge (if v then ScType_EdgeAccessConstPosTemp
                             else ScType_EdgeAccessConstNegTemp)
                     (nrel_satisfiable_formula K) arc1)
              \<in> set (addSatisfiabilityInformation K rule model v ?m')"
    by (rule add_one_record)
  then have second: "\<exists>arc1 arc2.
            satisfiabilityRecords K (addSatisfiabilityInformation K rule model v ?m') rule model
              = [(arc1, arc2)]
          \<and> (arc2, ScEdge (if v then ScType_EdgeAccessConstPosTemp
                             else ScType_EdgeAccessConstNegTemp)
                     (nrel_satisfiable_formula K) arc1)
              \<in> set (addSatisfiabilityInformation K rule model v ?m')"
    by blast
  show ?thesis
    using first second clear_no_records[of K rule model m] clear_twice[of K rule model m]
    by blast
qed

theorem addSatisfiabilityInformation_exactly_one_record_witness:
  "distinct (map fst m_ex) \<and> IsNode m_ex 1 \<and> IsNode m_ex 3
   \<and> IsNode m_ex (nrel_satisfiable_formula K_ex)
   \<and> (\<exists>arc1 arc2.
         satisfiabilityRecords K_ex
           (addSatisfiabilityInformation K_ex 1 3 False
              (addSatisfiabilityInformation K_ex 1 3 True m_ex)) 1 3
           = [(arc1, arc2)]
       \<and> (arc2, ScEdge ScType_EdgeAccessConstNegTemp (nrel_satisfiable_formula K_ex) arc1)
           \<in> set (addSatisfiabilityInformation K_ex 1 3 False
                     (addSatisfiabilityInformation K_ex 1 3 True m_ex)))"
proof -
  have h: "distinct (map fst m_ex)" "IsNode m_ex 1" "IsNode m_ex 3"
    "IsNode m_ex (nrel_satisfiable_formula K_ex)"
    by (simp_all add: m_ex_def K_ex_def IsNode_def)
  show ?thesis
    using h addSatisfiabilityInformation_exactly_one_record [OF h, of False True]
    by simp
qed

section \<open>The target check\<close>

lemma searchEach_append:
  "\<not> fst (searchEach C w t ps)
     \<Longrightarrow> searchEach C w t (ps @ rest) = searchEach C (snd (searchEach C w t ps)) t rest"
  by (induction ps arbitrary: w) (auto split: prod.splits if_splits)

lemma searchEach_pure:
  "(\<forall>w' p. snd (searchTemplate C w' t p) = w')
     \<Longrightarrow> searchEach C w t ps = ((\<exists>p \<in> set ps. fst (searchTemplate C w t p) \<noteq> []), w)"
proof (induction ps arbitrary: w)
  case Nil
  then show ?case by simp
next
  case (Cons p ps)
  obtain r w' where r: "searchTemplate C w t p = (r, w')" by (cases "searchTemplate C w t p")
  then have "w' = w" using Cons.prems by (metis snd_conv)
  then show ?case using Cons r by auto
qed

lemma searchEach_memory:
  "(\<forall>w' p. ms_context (snd (searchTemplate C w' t p)) = ms_context w')
     \<Longrightarrow> ms_context (snd (searchEach C w t ps)) = ms_context w"
proof (induction ps arbitrary: w)
  case Nil
  then show ?case by simp
next
  case (Cons p ps)
  obtain r w' where r: "searchTemplate C w t p = (r, w')" by (cases "searchTemplate C w t p")
  then have "ms_context w' = ms_context w" using Cons.prems by (metis snd_conv)
  then show ?case using Cons r by auto
qed

lemma known_m_ex: "known m_ex a = (a = 6)"
  by (auto simp: known_def Iterator3_def m_ex_def type_matches_def ScType_Node_def
         ScType_EdgeAccessConstPosPerm_def)


text \<open>
  Claim C8. \<^verbatim>\<open>isTargetAchieved\<close> returns true at the first enumerated binding set
  whose search finds a match, and the binding sets after it are not searched: the world it
  returns is the one that search left. It returns false when no binding set is enumerated,
  and, for a search that leaves the world as it is, it returns true exactly when some
  enumerated binding set matches. It generates nothing: when enumerating and searching
  leave the store unchanged, so does the call.
\<close>

theorem isTargetAchieved_first_match_read_only:
  "(createTemplateParams C w t arguments = (ps @ p # qs, w1)
      \<and> \<not> fst (searchEach C w1 t ps)
      \<and> fst (searchTemplate C (snd (searchEach C w1 t ps)) t p) \<noteq> []
     \<longrightarrow> isTargetAchieved C w t arguments
           = (True, snd (searchTemplate C (snd (searchEach C w1 t ps)) t p)))
   \<and> (createTemplateParams C w t arguments = ([], w1)
     \<longrightarrow> isTargetAchieved C w t arguments = (False, w1))
   \<and> ((\<forall>w' p'. snd (searchTemplate C w' t p') = w')
      \<and> createTemplateParams C w t arguments = (ps', w1')
     \<longrightarrow> isTargetAchieved C w t arguments
           = ((\<exists>p' \<in> set ps'. fst (searchTemplate C w1' t p') \<noteq> []), w1'))
   \<and> ((\<forall>w' p'. ms_context (snd (searchTemplate C w' t p')) = ms_context w')
      \<and> ms_context (snd (createTemplateParams C w t arguments)) = ms_context w
     \<longrightarrow> ms_context (snd (isTargetAchieved C w t arguments)) = ms_context w)"
proof (intro conjI impI)
  assume h: "createTemplateParams C w t arguments = (ps @ p # qs, w1)
      \<and> \<not> fst (searchEach C w1 t ps)
      \<and> fst (searchTemplate C (snd (searchEach C w1 t ps)) t p) \<noteq> []"
  then have "searchEach C w1 t (ps @ p # qs)
               = searchEach C (snd (searchEach C w1 t ps)) t (p # qs)"
    by (simp add: searchEach_append)
  also have "\<dots> = (True, snd (searchTemplate C (snd (searchEach C w1 t ps)) t p))"
    using h by (auto split: prod.splits)
  finally show "isTargetAchieved C w t arguments
           = (True, snd (searchTemplate C (snd (searchEach C w1 t ps)) t p))"
    using h by (simp add: isTargetAchieved_def)
next
  assume "createTemplateParams C w t arguments = ([], w1)"
  then show "isTargetAchieved C w t arguments = (False, w1)"
    by (simp add: isTargetAchieved_def)
next
  assume h: "(\<forall>w' p'. snd (searchTemplate C w' t p') = w')
      \<and> createTemplateParams C w t arguments = (ps', w1')"
  then have "searchEach C w1' t ps' = ((\<exists>p' \<in> set ps'. fst (searchTemplate C w1' t p') \<noteq> []), w1')"
    by (intro searchEach_pure) blast
  then show "isTargetAchieved C w t arguments
           = ((\<exists>p' \<in> set ps'. fst (searchTemplate C w1' t p') \<noteq> []), w1')"
    using h by (simp add: isTargetAchieved_def)
next
  assume h: "(\<forall>w' p'. ms_context (snd (searchTemplate C w' t p')) = ms_context w')
      \<and> ms_context (snd (createTemplateParams C w t arguments)) = ms_context w"
  obtain xs w2 where c: "createTemplateParams C w t arguments = (xs, w2)"
    by (cases "createTemplateParams C w t arguments")
  have "ms_context (snd (searchEach C w2 t xs)) = ms_context w2"
    using h by (intro searchEach_memory) blast
  then show "ms_context (snd (isTargetAchieved C w t arguments)) = ms_context w"
    using h c by (simp add: isTargetAchieved_def)
qed

theorem isTargetAchieved_first_match_read_only_witness:
  "isTargetAchieved C_trace (world s_ex) 9 [7, 6, 8]
     = (True, (world s_ex)\<lparr>searcher_params := [7, 6]\<rparr>)
   \<and> isTargetAchieved C_trace (world s_ex) 9 [] = (False, world s_ex)
   \<and> isTargetAchieved C_ex (world s_ex) 9 [7] = (False, world s_ex)
   \<and> ms_context (snd (isTargetAchieved C_trace (world s_ex) 9 [7, 6, 8])) = m_ex"
proof -
  have h1: "createTemplateParams C_trace (world s_ex) 9 [7, 6, 8]
              = ([[(''_x'', 7)]] @ [(''_x'', 6)] # [[(''_x'', 8)]], world s_ex)
      \<and> \<not> fst (searchEach C_trace (world s_ex) 9 [[(''_x'', 7)]])
      \<and> fst (searchTemplate C_trace (snd (searchEach C_trace (world s_ex) 9 [[(''_x'', 7)]])) 9
               [(''_x'', 6)]) \<noteq> []"
    by (simp add: C_trace_def C_ex_def s_ex_def known_m_ex)
  have h2: "createTemplateParams C_trace (world s_ex) 9 [] = ([], world s_ex)"
    by (simp add: C_trace_def C_ex_def)
  have h3: "(\<forall>w' p'. snd (searchTemplate C_ex w' 9 p') = w')
      \<and> createTemplateParams C_ex (world s_ex) 9 [7] = ([[]], world s_ex)"
    by (simp add: C_ex_def)
  have h4: "(\<forall>w' p'. ms_context (snd (searchTemplate C_trace w' 9 p')) = ms_context w')
      \<and> ms_context (snd (createTemplateParams C_trace (world s_ex) 9 [7, 6, 8]))
          = ms_context (world s_ex)"
    by (simp add: C_trace_def C_ex_def)
  have r1: "isTargetAchieved C_trace (world s_ex) 9 [7, 6, 8]
     = (True, (world s_ex)\<lparr>searcher_params := [7, 6]\<rparr>)"
    using h1 isTargetAchieved_first_match_read_only
            [of C_trace "world s_ex" 9 "[7, 6, 8]" "[[(''_x'', 7)]]" "[(''_x'', 6)]"
                "[[(''_x'', 8)]]" "world s_ex"]
    by (simp add: C_trace_def C_ex_def s_ex_def known_m_ex)
  have r2: "isTargetAchieved C_trace (world s_ex) 9 [] = (False, world s_ex)"
    using h2 isTargetAchieved_first_match_read_only
            [of C_trace "world s_ex" 9 "[]" _ _ _ "world s_ex"]
    by simp
  have r3: "isTargetAchieved C_ex (world s_ex) 9 [7] = (False, world s_ex)"
    using h3 isTargetAchieved_first_match_read_only
            [of C_ex "world s_ex" 9 "[7]" _ _ _ _ "[[]]" "world s_ex"]
    by (simp add: C_ex_def s_ex_def known_m_ex)
  have r4: "ms_context (snd (isTargetAchieved C_trace (world s_ex) 9 [7, 6, 8])) = m_ex"
    using h4 isTargetAchieved_first_match_read_only
            [of C_trace "world s_ex" 9 "[7, 6, 8]"]
    by (simp add: s_ex_def)
  show ?thesis using r1 r2 r3 r4 by blast
qed


section \<open>generateStatement\<close>

text \<open>
  Claim C7, as stated, fails: when the search already finds the statement,
  \<^verbatim>\<open>generateStatement\<close> returns false, not true (\<^verbatim>\<open>result\<close> keeps its initial value).
\<close>

theorem generateStatement_found_counterexample:
  "HelperSearchTemplate C_ex m_ex (HelperBuildTemplate 6 [])
   \<and> generateStatement C_ex m_ex 6 [] = (False, m_ex)"
  by (simp add: generateStatement_def HelperBuildTemplate_def C_ex_def known_def Iterator3_def
        m_ex_def type_matches_def ScType_Node_def ScType_EdgeAccessConstPosPerm_def)


text \<open>
  Claim C7, amended. \<^verbatim>\<open>generateStatement\<close> searches first. When the search finds a
  match it returns false and generates nothing; when the search finds none it generates and
  returns what the generation returns. So it returns true only for a statement that was
  absent and has been generated.
\<close>

theorem generateStatement_true_only_when_generated:
  "(HelperSearchTemplate C m (HelperBuildTemplate statement templateParams)
      \<longrightarrow> generateStatement C m statement templateParams = (False, m))
   \<and> (\<not> HelperSearchTemplate C m (HelperBuildTemplate statement templateParams)
      \<longrightarrow> generateStatement C m statement templateParams
            = HelperGenTemplate C m (HelperBuildTemplate statement []) templateParams)"
  by (simp add: generateStatement_def Let_def)

theorem generateStatement_true_only_when_generated_witness:
  "HelperSearchTemplate C_ex m_ex (HelperBuildTemplate 6 [])
   \<and> generateStatement C_ex m_ex 6 [] = (False, m_ex)
   \<and> \<not> HelperSearchTemplate C_ex m_ex (HelperBuildTemplate 7 [])
   \<and> generateStatement C_ex m_ex 7 []
       = HelperGenTemplate C_ex m_ex (HelperBuildTemplate 7 []) []
   \<and> fst (generateStatement C_ex m_ex 7 [])"
proof -
  have h: "HelperSearchTemplate C_ex m_ex (HelperBuildTemplate 6 [])"
    "\<not> HelperSearchTemplate C_ex m_ex (HelperBuildTemplate 7 [])"
    by (simp_all add: C_ex_def HelperBuildTemplate_def known_m_ex)
  have g: "fst (HelperGenTemplate C_ex m_ex (HelperBuildTemplate 7 []) [])"
    by (simp add: C_ex_def HelperBuildTemplate_def)
  show ?thesis
    using h g generateStatement_true_only_when_generated [of C_ex m_ex 6 "[]"]
      generateStatement_true_only_when_generated [of C_ex m_ex 7 "[]"]
    by simp
qed


section \<open>useRule\<close>

text \<open>
  Claim C9. For a rule without key element (the lookup gives the empty handle),
  \<^verbatim>\<open>useRule\<close> returns false, which is a value and not an error; it only writes its
  trace line, and the logical expression plays no part in the result.
\<close>

theorem useRule_without_key_element:
  assumes "getAnyByOutRelation C (ms_context (world s)) rule (rrel_main_key_sc_element K)
             = Inr keyScElement"
    and "\<not> IsValid keyScElement"
  shows "useRule C K outputStructure rule arguments s
           = Inr ((False, arguments), s\<lparr>log := log s @ [Trying_to_use_rule rule]\<rparr>)
       \<and> useRule (C\<lparr>logicExpression := f\<rparr>) K outputStructure rule arguments s
           = useRule C K outputStructure rule arguments s"
  using assms by (simp add: useRule_def Let_def)

theorem useRule_without_key_element_witness:
  "getAnyByOutRelation C_ex (ms_context (world s_ex)) 9 (rrel_main_key_sc_element K_ex) = Inr 0
   \<and> \<not> IsValid 0
   \<and> useRule C_ex K_ex 0 9 [6] s_ex = Inr ((False, [6]), s_ex\<lparr>log := [Trying_to_use_rule 9]\<rparr>)"
proof -
  have h: "getAnyByOutRelation C_ex (ms_context (world s_ex)) 9 (rrel_main_key_sc_element K_ex) = Inr 0"
    "\<not> IsValid 0"
    by (simp_all add: C_ex_def K_ex_def IsValid_def)
  show ?thesis
    using h useRule_without_key_element [OF h, of 0 "[6]"]
    by (simp add: s_ex_def)
qed


section \<open>createRulesQueuesListByPriority\<close>

lemma rulesQueuesLoop_error:
  "rulesQueuesLoop C m rulesSet acc setOfRules = Inl e
     \<Longrightarrow> e = bad_alloc
         \<or> (\<exists>a. getAllWithType C m a ScType_Node = Inl e)
         \<or> (\<exists>a. getNextFromSet C m rulesSet a = Inl e)"
proof (induction C m rulesSet acc setOfRules rule: rulesQueuesLoop.induct)
  case (1 C m rulesSet acc setOfRules)
  show ?case
  proof (cases "IsValid setOfRules")
    case False
    then show ?thesis
      using "1.prems" by (simp add: rulesQueuesLoop.simps[of C m rulesSet acc setOfRules])
  next
    case valid: True
    show ?thesis
    proof (cases "createQueue C m setOfRules")
      case (Inl e')
      then have "getAllWithType C m setOfRules ScType_Node = Inl e"
        using "1.prems" valid
        by (auto simp: rulesQueuesLoop.simps[of C m rulesSet acc setOfRules] createQueue_def
                 split: sum.splits)
      then show ?thesis by blast
    next
      case (Inr q)
      show ?thesis
      proof (cases "length acc < vector_capacity C")
        case False
        then show ?thesis
          using "1.prems" valid Inr
          by (simp add: rulesQueuesLoop.simps[of C m rulesSet acc setOfRules])
      next
        case room: True
        show ?thesis
        proof (cases "getNextFromSet C m rulesSet setOfRules")
          case (Inl e')
          then have "getNextFromSet C m rulesSet setOfRules = Inl e"
            using "1.prems" valid Inr room
            by (simp add: rulesQueuesLoop.simps[of C m rulesSet acc setOfRules])
          then show ?thesis by blast
        next
          case (Inr next_set)
          then have "rulesQueuesLoop C m rulesSet (acc @ [q]) next_set = Inl e"
            using "1.prems" valid \<open>createQueue C m setOfRules = Inr q\<close> room
            by (simp add: rulesQueuesLoop.simps[of C m rulesSet acc setOfRules])
          then show ?thesis
            using "1.IH"[OF valid \<open>createQueue C m setOfRules = Inr q\<close> room Inr] by blast
        qed
      qed
    qed
  qed
qed

lemma rulesQueuesLoop_cycle:
  assumes closed: "\<forall>a \<in> S. IsValid a \<and> (\<exists>q. getAllWithType C m a ScType_Node = Inr q)
                       \<and> (\<exists>b \<in> S. getNextFromSet C m rulesSet a = Inr b)"
  shows "setOfRules \<in> S \<Longrightarrow> rulesQueuesLoop C m rulesSet acc setOfRules = Inl bad_alloc"
proof (induction "vector_capacity C - length acc" arbitrary: acc setOfRules)
  case 0
  from closed "0.prems" obtain q where
    h: "IsValid setOfRules" "getAllWithType C m setOfRules ScType_Node = Inr q"
    by blast
  then show ?case
    using "0.hyps" by (simp add: rulesQueuesLoop.simps[of C m rulesSet acc] createQueue_def)
next
  case (Suc n)
  from closed Suc.prems obtain q b where
    h: "IsValid setOfRules" "getAllWithType C m setOfRules ScType_Node = Inr q"
       "b \<in> S" "getNextFromSet C m rulesSet setOfRules = Inr b"
    by blast
  have "n = vector_capacity C - length (acc @ [addToQueue q []])"
    using Suc.hyps(2) by simp
  then have "rulesQueuesLoop C m rulesSet (acc @ [addToQueue q []]) b = Inl bad_alloc"
    using Suc.hyps(1) h(3) by blast
  then show ?case
    using h Suc.hyps(2)
    by (simp add: rulesQueuesLoop.simps[of C m rulesSet acc] createQueue_def)
qed

text \<open>
  Claim C5, as stated, fails: for a rule set without the expected first-tier relation the
  function returns an empty list of queues and raises nothing.
\<close>

theorem createRulesQueuesListByPriority_missing_relation_counterexample:
  "getAnyByOutRelation C_ex m_ex 19 (rrel_1 K_ex) = Inr 0
   \<and> createRulesQueuesListByPriority C_ex K_ex m_ex 19 = Inr []"
  by (simp add: createRulesQueuesListByPriority_def rulesQueuesLoop.simps C_ex_def K_ex_def
        IsValid_def)

text \<open>
  Claim C5, amended. \<^verbatim>\<open>createRulesQueuesListByPriority\<close> has no check of its own. For
  a rule set without a first tier it returns an empty list of queues. A structural error
  (\<^verbatim>\<open>std::runtime_error\<close>) leaves it only when one of the store helpers it calls raised
  that error. On a tier chain that runs in a cycle it goes on until the list of queues
  can no longer grow and ends with \<^verbatim>\<open>std::bad_alloc\<close>, which is no structural error:
  the handler of the caller lets it pass.
\<close>

theorem createRulesQueuesListByPriority_no_check:
  "(getAnyByOutRelation C m rulesSet (rrel_1 K) = Inr a \<and> \<not> IsValid a
      \<longrightarrow> createRulesQueuesListByPriority C K m rulesSet = Inr [])
   \<and> (createRulesQueuesListByPriority C K m rulesSet = Inl (runtime_error what)
      \<longrightarrow> getAnyByOutRelation C m rulesSet (rrel_1 K) = Inl (runtime_error what)
          \<or> (\<exists>b. getAllWithType C m b ScType_Node = Inl (runtime_error what))
          \<or> (\<exists>b. getNextFromSet C m rulesSet b = Inl (runtime_error what)))
   \<and> (getAnyByOutRelation C m rulesSet (rrel_1 K) = Inr a' \<and> a' \<in> S
       \<and> (\<forall>b \<in> S. IsValid b \<and> (\<exists>q. getAllWithType C m b ScType_Node = Inr q)
                    \<and> (\<exists>c \<in> S. getNextFromSet C m rulesSet b = Inr c))
      \<longrightarrow> createRulesQueuesListByPriority C K m rulesSet = Inl bad_alloc)
   \<and> (IsValid rulesSet
       \<and> createRulesQueuesListByPriority C K (ms_context (world s)) rulesSet = Inl bad_alloc
      \<longrightarrow> applyRules fuel C K t rulesSet inputStructure outputStructure arguments s
            = Some (Inl bad_alloc))"
proof (intro conjI impI)
  assume "getAnyByOutRelation C m rulesSet (rrel_1 K) = Inr a \<and> \<not> IsValid a"
  then show "createRulesQueuesListByPriority C K m rulesSet = Inr []"
    by (simp add: createRulesQueuesListByPriority_def rulesQueuesLoop.simps)
next
  assume h: "createRulesQueuesListByPriority C K m rulesSet = Inl (runtime_error what)"
  show "getAnyByOutRelation C m rulesSet (rrel_1 K) = Inl (runtime_error what)
          \<or> (\<exists>b. getAllWithType C m b ScType_Node = Inl (runtime_error what))
          \<or> (\<exists>b. getNextFromSet C m rulesSet b = Inl (runtime_error what))"
  proof (cases "getAnyByOutRelation C m rulesSet (rrel_1 K)")
    case (Inl e')
    then show ?thesis using h by (simp add: createRulesQueuesListByPriority_def)
  next
    case (Inr first)
    then have "rulesQueuesLoop C m rulesSet [] first = Inl (runtime_error what)"
      using h by (simp add: createRulesQueuesListByPriority_def)
    then show ?thesis using rulesQueuesLoop_error by blast
  qed
next
  assume h: "getAnyByOutRelation C m rulesSet (rrel_1 K) = Inr a' \<and> a' \<in> S
       \<and> (\<forall>b \<in> S. IsValid b \<and> (\<exists>q. getAllWithType C m b ScType_Node = Inr q)
                    \<and> (\<exists>c \<in> S. getNextFromSet C m rulesSet b = Inr c))"
  then have "rulesQueuesLoop C m rulesSet [] a' = Inl bad_alloc"
    by (intro rulesQueuesLoop_cycle[of S]) blast+
  then show "createRulesQueuesListByPriority C K m rulesSet = Inl bad_alloc"
    using h by (simp add: createRulesQueuesListByPriority_def)
next
  assume "IsValid rulesSet
       \<and> createRulesQueuesListByPriority C K (ms_context (world s)) rulesSet = Inl bad_alloc"
  then show "applyRules fuel C K t rulesSet inputStructure outputStructure arguments s
            = Some (Inl bad_alloc)"
    by (simp add: applyRules_def)
qed

theorem createRulesQueuesListByPriority_no_check_witness:
  "getAnyByOutRelation C_ex m_ex 19 (rrel_1 K_ex) = Inr 0 \<and> \<not> IsValid 0
   \<and> createRulesQueuesListByPriority C_ex K_ex m_ex 19 = Inr []
   \<and> createRulesQueuesListByPriority C_throw K_ex m_ex 20
       = Inl (runtime_error ''no next tier'')
   \<and> getNextFromSet C_throw m_ex 20 21 = Inl (runtime_error ''no next tier'')
   \<and> getAnyByOutRelation C_cyclic m_ex 20 (rrel_1 K_ex) = Inr 21
   \<and> getNextFromSet C_cyclic m_ex 20 21 = Inr 22
   \<and> getNextFromSet C_cyclic m_ex 20 22 = Inr 21
   \<and> createRulesQueuesListByPriority C_cyclic K_ex m_ex 20 = Inl bad_alloc
   \<and> IsValid 20
   \<and> applyRules 7 C_cyclic K_ex 9 20 0 0 [] s_ex = Some (Inl bad_alloc)"
proof -
  have h1: "getAnyByOutRelation C_ex m_ex 19 (rrel_1 K_ex) = Inr 0 \<and> \<not> IsValid 0"
    by (simp add: C_ex_def K_ex_def IsValid_def)
  have h2: "createRulesQueuesListByPriority C_throw K_ex m_ex 20
       = Inl (runtime_error ''no next tier'')"
    by (simp add: createRulesQueuesListByPriority_def rulesQueuesLoop.simps createQueue_def
          addToQueue_def C_throw_def C_ex_def K_ex_def IsValid_def)
  have h3: "getAnyByOutRelation C_cyclic m_ex 20 (rrel_1 K_ex) = Inr 21 \<and> 21 \<in> {21, 22}
       \<and> (\<forall>b \<in> {21, 22}. IsValid b \<and> (\<exists>q. getAllWithType C_cyclic m_ex b ScType_Node = Inr q)
                    \<and> (\<exists>c \<in> {21, 22}. getNextFromSet C_cyclic m_ex 20 b = Inr c))"
    by (simp add: C_cyclic_def C_ex_def K_ex_def IsValid_def)
  have v: "IsValid 20" by (simp add: IsValid_def)
  have w: "ms_context (world s_ex) = m_ex" by (simp add: s_ex_def)
  have r1: "createRulesQueuesListByPriority C_ex K_ex m_ex 19 = Inr []"
    using h1 createRulesQueuesListByPriority_no_check [of C_ex m_ex 19 K_ex 0] by blast
  have r2: "getAnyByOutRelation C_throw m_ex 20 (rrel_1 K_ex) = Inl (runtime_error ''no next tier'')
          \<or> (\<exists>b. getAllWithType C_throw m_ex b ScType_Node = Inl (runtime_error ''no next tier''))
          \<or> (\<exists>b. getNextFromSet C_throw m_ex 20 b = Inl (runtime_error ''no next tier''))"
    using h2 createRulesQueuesListByPriority_no_check
        [of C_throw m_ex 20 K_ex _ "''no next tier''"] by blast
  have r3: "createRulesQueuesListByPriority C_cyclic K_ex m_ex 20 = Inl bad_alloc"
    using h3 createRulesQueuesListByPriority_no_check
        [of C_cyclic m_ex 20 K_ex _ _ 21 "{21, 22}"] by blast
  have r4: "applyRules 7 C_cyclic K_ex 9 20 0 0 [] s_ex = Some (Inl bad_alloc)"
    using v r3 w createRulesQueuesListByPriority_no_check
        [of C_cyclic "ms_context (world s_ex)" 20 K_ex _ _ _ _ s_ex 7 9 0 0 "[]"] by simp
  show ?thesis
    using h1 h2 r1 r2 r3 r4 v by (simp add: C_throw_def C_cyclic_def C_ex_def K_ex_def)
qed

section \<open>applyInference: arguments and the first target check\<close>

lemma fold_addParam_memory:
  "ms_context (fold (\<lambda>found. addParam (snd found)) xs w) = ms_context w"
  by (induction xs arbitrary: w) (simp_all add: addParam_def)

lemma collectArguments_memory:
  "collectArguments C inputStructure s = Inr (arguments, s1)
     \<Longrightarrow> ms_context (world s1) = ms_context (world s) \<and> log s1 = log s"
  by (auto simp: collectArguments_def Let_def fold_addParam_memory split: if_splits sum.splits)

lemma no_arguments_m_ex:
  "Iterator3 m_ex 3 ScType_EdgeAccessConstPosPerm ScType_Node = []"
  by (simp add: Iterator3_def m_ex_def)

lemma arguments_of_5: "Iterator3 m_ex 5 ScType_EdgeAccessConstPosPerm ScType_Node = [(10, 6)]"
  by code_simp


text \<open>
  Claim C2, as stated, fails: with an invalid input structure the argument list is empty,
  and the function still checks the target; here it returns a success solution.
\<close>

theorem applyInference_invalid_input_counterexample:
  "collectArguments C_ex 0 s_ex = Inr ([], s_ex)
   \<and> applyInference 0 C_ex K_ex 6 20 0 0 s_ex
       = Some (Inr (100, s_ex\<lparr>log := [Target_is_already_achieved]\<rparr>))"
  by (simp add: applyInference_def collectArguments_def IsValid_def isTargetAchieved_def
        returnSolution_def writeLog_def setInputStructure_def C_ex_def s_ex_def known_m_ex)


text \<open>
  Claim C2, amended. When the input structure is valid and holds no node, the argument
  list is empty and \<^verbatim>\<open>applyInference\<close> returns a failure solution at once: the target
  is not checked and no rule is evaluated. When the input structure is invalid the
  argument list is empty as well, and the run goes on to the target check.
\<close>

theorem applyInference_empty_input_structure:
  "(IsValid inputStructure
      \<and> getAllWithType C (ms_context (world s)) inputStructure ScType_Node = Inr []
     \<longrightarrow> applyInference fuel C K targetTemplate ruleSet inputStructure outputStructure s
          = returnSolution C False
              (s\<lparr>world := fold (\<lambda>found. addParam (snd found))
                             (Iterator3 (ms_context (world s)) inputStructure
                                ScType_EdgeAccessConstPosPerm ScType_Node)
                             (world s)\<rparr>))
   \<and> (\<not> IsValid inputStructure
     \<longrightarrow> collectArguments C inputStructure s = Inr ([], s)
       \<and> applyInference fuel C K targetTemplate ruleSet inputStructure outputStructure s
          = (case isTargetAchieved C (setInputStructure inputStructure (world s)) targetTemplate []
             of (achieved, w3) \<Rightarrow>
                  if achieved
                  then returnSolution C True
                         (writeLog Target_is_already_achieved (s\<lparr>world := w3\<rparr>))
                  else applyRules fuel C K targetTemplate ruleSet inputStructure outputStructure
                         [] (s\<lparr>world := w3\<rparr>)))"
  by (auto simp: applyInference_def collectArguments_def Let_def fold_addParam_memory
           split: prod.splits)

theorem applyInference_empty_input_structure_witness:
  "IsValid 3
   \<and> getAllWithType C_ex (ms_context (world s_ex)) 3 ScType_Node = Inr []
   \<and> applyInference 3 C_ex K_ex 9 20 3 0 s_ex = Some (Inr (101, s_ex))
   \<and> \<not> IsValid 0
   \<and> collectArguments C_ex 0 s_ex = Inr ([], s_ex)
   \<and> applyInference 3 C_ex K_ex 6 20 0 0 s_ex
       = Some (Inr (100, s_ex\<lparr>log := [Target_is_already_achieved]\<rparr>))"
proof -
  have h: "IsValid 3 \<and> getAllWithType C_ex (ms_context (world s_ex)) 3 ScType_Node = Inr []"
    "\<not> IsValid 0"
    by (simp_all add: IsValid_def C_ex_def s_ex_def no_arguments_m_ex)
  have t: "isTargetAchieved C_ex (setInputStructure 0 (world s_ex)) 6 [] = (True, world s_ex)"
    by (simp add: isTargetAchieved_def setInputStructure_def C_ex_def s_ex_def known_m_ex)
  show ?thesis
    using h t
      applyInference_empty_input_structure [of 3 C_ex s_ex 3 K_ex 9 20 0]
      applyInference_empty_input_structure [of 0 C_ex s_ex 3 K_ex 6 20 0]
    by (simp add: returnSolution_def writeLog_def C_ex_def s_ex_def no_arguments_m_ex)
qed


text \<open>
  Claim C4. In every run that reaches the target check of line 49 (the argument check of
  lines 37 to 45 is passed: the input structure is invalid, or it is valid and the
  argument list is not empty) and in which the target pattern already matches under an
  enumerated binding, so that the check succeeds before any rule is tried,
  \<^verbatim>\<open>applyInference\<close> returns a success solution. The result depends neither on the rule
  set nor on any rule, and the store is the one the target check left: the initial one,
  when enumerating and searching do not change it.
\<close>

theorem applyInference_target_already_achieved:
  assumes "collectArguments C inputStructure s = Inr (arguments, s1)"
    and "\<not> (IsValid inputStructure \<and> arguments = [])"
    and "isTargetAchieved C (setInputStructure inputStructure (world s1)) targetTemplate arguments
           = (True, w3)"
  shows "applyInference fuel C K targetTemplate ruleSet inputStructure outputStructure s
           = returnSolution C True (writeLog Target_is_already_achieved (s1\<lparr>world := w3\<rparr>))
       \<and> ((\<forall>w' p. ms_context (snd (searchTemplate C w' targetTemplate p)) = ms_context w')
            \<and> (\<forall>w'. ms_context (snd (createTemplateParams C w' targetTemplate arguments))
                      = ms_context w')
          \<longrightarrow> ms_context w3 = ms_context (world s))"
proof
  show "applyInference fuel C K targetTemplate ruleSet inputStructure outputStructure s
           = returnSolution C True (writeLog Target_is_already_achieved (s1\<lparr>world := w3\<rparr>))"
    using assms by (auto simp: applyInference_def Let_def)
next
  show "(\<forall>w' p. ms_context (snd (searchTemplate C w' targetTemplate p)) = ms_context w')
            \<and> (\<forall>w'. ms_context (snd (createTemplateParams C w' targetTemplate arguments))
                      = ms_context w')
          \<longrightarrow> ms_context w3 = ms_context (world s)"
  proof
    assume h: "(\<forall>w' p. ms_context (snd (searchTemplate C w' targetTemplate p)) = ms_context w')
            \<and> (\<forall>w'. ms_context (snd (createTemplateParams C w' targetTemplate arguments))
                      = ms_context w')"
    let ?w = "setInputStructure inputStructure (world s1)"
    obtain xs w2 where c: "createTemplateParams C ?w targetTemplate arguments = (xs, w2)"
      by (cases "createTemplateParams C ?w targetTemplate arguments")
    have "ms_context w2 = ms_context ?w" using h c by (metis snd_conv)
    moreover have "ms_context (snd (searchEach C w2 targetTemplate xs)) = ms_context w2"
      using h by (intro searchEach_memory) blast
    moreover have "snd (searchEach C w2 targetTemplate xs) = w3"
      using assms(3) c by (simp add: isTargetAchieved_def)
    moreover have "ms_context ?w = ms_context (world s)"
      using collectArguments_memory[OF assms(1)] by (simp add: setInputStructure_def)
    ultimately show "ms_context w3 = ms_context (world s)" by simp
  qed
qed


theorem applyInference_target_already_achieved_witness:
  "collectArguments C_trace 5 s_ex
     = Inr ([6], s_ex\<lparr>world := (world s_ex)\<lparr>searcher_params := [6]\<rparr>\<rparr>)
   \<and> \<not> (IsValid 5 \<and> [6::nat] = [])
   \<and> isTargetAchieved C_trace
        (setInputStructure 5 ((world s_ex)\<lparr>searcher_params := [6]\<rparr>)) 9 [6]
       = (True, (world s_ex)\<lparr>searcher_params := [6, 6], searcher_inputStructure := 5\<rparr>)
   \<and> applyInference 0 C_trace K_ex 9 20 5 0 s_ex
       = Some (Inr (100, \<lparr>world = (world s_ex)\<lparr>searcher_params := [6, 6],
                                                 searcher_inputStructure := 5\<rparr>,
                          log = [Target_is_already_achieved]\<rparr>))
   \<and> ms_context ((world s_ex)\<lparr>searcher_params := [6, 6], searcher_inputStructure := 5\<rparr>)
       = ms_context (world s_ex)"
proof -
  have h1: "collectArguments C_trace 5 s_ex
     = Inr ([6], s_ex\<lparr>world := (world s_ex)\<lparr>searcher_params := [6]\<rparr>\<rparr>)"
    by (simp add: collectArguments_def IsValid_def C_trace_def C_ex_def s_ex_def
          arguments_of_5 addParam_def)
  have h2: "\<not> (IsValid 5 \<and> [6::nat] = [])" by simp
  have h3: "isTargetAchieved C_trace
        (setInputStructure 5 (world (s_ex\<lparr>world := (world s_ex)\<lparr>searcher_params := [6]\<rparr>\<rparr>))) 9 [6]
       = (True, (world s_ex)\<lparr>searcher_params := [6, 6], searcher_inputStructure := 5\<rparr>)"
    by (simp add: isTargetAchieved_def setInputStructure_def C_trace_def C_ex_def s_ex_def
          known_m_ex)
  have h4: "(\<forall>w' p. ms_context (snd (searchTemplate C_trace w' 9 p)) = ms_context w')
            \<and> (\<forall>w'. ms_context (snd (createTemplateParams C_trace w' 9 [6])) = ms_context w')"
    by (simp add: C_trace_def C_ex_def)
  show ?thesis
    using h1 h2 h3 h4 applyInference_target_already_achieved [OF h1 h2 h3, of 0 K_ex 20 0]
    by (simp add: returnSolution_def writeLog_def C_trace_def C_ex_def s_ex_def)
qed

section \<open>applyInference: soft failures and termination\<close>

lemma returnSolution_Some:
  "returnSolution C achieved s
     = Some (Inr (fst (createSolution C (world s) achieved),
                  s\<lparr>world := snd (createSolution C (world s) achieved)\<rparr>))"
  by (simp add: returnSolution_def split: prod.splits)


lemma applyRules_returned:
  assumes "applyRules fuel C K t ruleSet input out arguments s = Some (Inr x)"
  shows "\<exists>achieved s'. Some (Inr x) = returnSolution C achieved s'"
proof (cases "IsValid ruleSet")
  case False
  then have "Some (Inr x) = returnSolution C False (writeLog Rules_set_is_not_valid s)"
    using assms by (simp add: applyRules_def)
  then show ?thesis by blast
next
  case True
  show ?thesis
  proof (cases "createRulesQueuesListByPriority C K (ms_context (world s)) ruleSet")
    case (Inl e)
    then obtain what where e: "e = runtime_error what"
      using assms True by (cases e) (simp_all add: applyRules_def)
    then have "Some (Inr x) = returnSolution C False (writeLog (Error_what what) s)"
      using assms True Inl by (simp add: applyRules_def)
    then show ?thesis by blast
  next
    case (Inr queues)
    show ?thesis
    proof (cases "queues = []")
      case True
      then have "Some (Inr x) = returnSolution C False (writeLog No_rule_sets_found s)"
        using assms \<open>IsValid ruleSet\<close> Inr by (simp add: applyRules_def)
      then show ?thesis by blast
    next
      case False
      let ?model = "if IsValid input then input else knowledge_base_IMS K"
      let ?L0 = "\<lparr>ruleQueueIndex = 0, uncheckedRules = [], checkedRuleList = [],
                   argumentList = arguments, targetAchieved = False,
                   state = writeLog (Start_rule_applying (length queues)) s\<rparr>"
      from assms \<open>IsValid ruleSet\<close> Inr False obtain L where
        "forLoop fuel C K t ?model out queues ?L0 = Some (Inr L)"
        "Some (Inr x) = returnSolution C (targetAchieved L) (state L)"
        by (auto simp: applyRules_def Let_def split: option.splits sum.splits)
      then show ?thesis by blast
    qed
  qed
qed

lemma applyInference_returned:
  assumes "applyInference fuel C K t ruleSet input out s = Some (Inr x)"
  shows "\<exists>achieved s'. Some (Inr x) = returnSolution C achieved s'"
proof -
  from assms obtain arguments s1 where c: "collectArguments C input s = Inr (arguments, s1)"
    by (cases "collectArguments C input s") (auto simp: applyInference_def)
  show ?thesis
  proof (cases "IsValid input \<and> arguments = []")
    case True
    then have "Some (Inr x) = returnSolution C False s1"
      using assms c by (simp add: applyInference_def)
    then show ?thesis by blast
  next
    case False
    obtain achieved w3 where
      i: "isTargetAchieved C (setInputStructure input (world s1)) t arguments = (achieved, w3)"
      by (cases "isTargetAchieved C (setInputStructure input (world s1)) t arguments")
    show ?thesis
    proof (cases achieved)
      case True
      then have "Some (Inr x) = returnSolution C True
                   (writeLog Target_is_already_achieved
                      (s1\<lparr>world := setInputStructure input (world s1)\<rparr>\<lparr>world := w3\<rparr>))"
        using assms c False i by (simp add: applyInference_def Let_def)
      then show ?thesis by blast
    next
      case nf: False
      then have "applyRules fuel C K t ruleSet input out arguments
                   (s1\<lparr>world := setInputStructure input (world s1)\<rparr>\<lparr>world := w3\<rparr>)
                 = Some (Inr x)"
        using assms c False i by (simp add: applyInference_def Let_def)
      then show ?thesis using applyRules_returned by blast
    qed
  qed
qed

text \<open>
  Claim C6, amended. In every run where the target is not achieved at the first check and
  the rule set is an invalid handle, or the construction of the queues throws a structural
  error (\<^verbatim>\<open>std::runtime_error\<close>), or it yields no tier, \<^verbatim>\<open>applyInference\<close> writes its
  diagnostic and returns a failure solution, without raising. Every run that returns,
  returns a Solution record that \<^verbatim>\<open>createSolution\<close> made. Not every run returns: an
  error of the construction that is no \<^verbatim>\<open>std::runtime_error\<close>, such as the
  \<^verbatim>\<open>std::bad_alloc\<close> of a cyclic tier chain, reaches the caller, and the main loop need
  not end.
\<close>

theorem applyInference_soft_failures:
  assumes "collectArguments C input s = Inr (arguments, s1)"
    and "\<not> (IsValid input \<and> arguments = [])"
    and "isTargetAchieved C (setInputStructure input (world s1)) t arguments = (False, w3)"
  shows "(\<not> IsValid ruleSet
            \<longrightarrow> applyInference fuel C K t ruleSet input out s
                 = returnSolution C False (writeLog Rules_set_is_not_valid (s1\<lparr>world := w3\<rparr>)))
       \<and> (IsValid ruleSet
            \<and> createRulesQueuesListByPriority C K (ms_context w3) ruleSet
                = Inl (runtime_error what)
            \<longrightarrow> applyInference fuel C K t ruleSet input out s
                 = returnSolution C False (writeLog (Error_what what) (s1\<lparr>world := w3\<rparr>)))
       \<and> (IsValid ruleSet
            \<and> createRulesQueuesListByPriority C K (ms_context w3) ruleSet = Inr []
            \<longrightarrow> applyInference fuel C K t ruleSet input out s
                 = returnSolution C False (writeLog No_rule_sets_found (s1\<lparr>world := w3\<rparr>)))
       \<and> (\<forall>achieved s'. returnSolution C achieved s'
             = Some (Inr (fst (createSolution C (world s') achieved),
                          s'\<lparr>world := snd (createSolution C (world s') achieved)\<rparr>)))
       \<and> (applyInference fuel C K t ruleSet input out s = Some (Inr x)
            \<longrightarrow> (\<exists>achieved s'. Some (Inr x) = returnSolution C achieved s'))
       \<and> (IsValid ruleSet
            \<and> createRulesQueuesListByPriority C K (ms_context w3) ruleSet = Inl e
            \<and> (\<forall>what'. e \<noteq> runtime_error what')
            \<longrightarrow> applyInference fuel C K t ruleSet input out s = Some (Inl e))"
proof -
  have start: "applyInference fuel C K t ruleSet input out s
                 = applyRules fuel C K t ruleSet input out arguments (s1\<lparr>world := w3\<rparr>)"
    using assms by (auto simp: applyInference_def Let_def)
  have last: "applyInference fuel C K t ruleSet input out s = Some (Inr x)
            \<longrightarrow> (\<exists>achieved s'. Some (Inr x) = returnSolution C achieved s')"
    using applyInference_returned by blast
  have soft: "(\<not> IsValid ruleSet
            \<longrightarrow> applyInference fuel C K t ruleSet input out s
                 = returnSolution C False (writeLog Rules_set_is_not_valid (s1\<lparr>world := w3\<rparr>)))
       \<and> (IsValid ruleSet
            \<and> createRulesQueuesListByPriority C K (ms_context w3) ruleSet
                = Inl (runtime_error what)
            \<longrightarrow> applyInference fuel C K t ruleSet input out s
                 = returnSolution C False (writeLog (Error_what what) (s1\<lparr>world := w3\<rparr>)))
       \<and> (IsValid ruleSet
            \<and> createRulesQueuesListByPriority C K (ms_context w3) ruleSet = Inr []
            \<longrightarrow> applyInference fuel C K t ruleSet input out s
                 = returnSolution C False (writeLog No_rule_sets_found (s1\<lparr>world := w3\<rparr>)))"
    unfolding start by (simp add: applyRules_def)
  have passes: "IsValid ruleSet
            \<and> createRulesQueuesListByPriority C K (ms_context w3) ruleSet = Inl e
            \<and> (\<forall>what'. e \<noteq> runtime_error what')
            \<longrightarrow> applyInference fuel C K t ruleSet input out s = Some (Inl e)"
    unfolding start by (cases e) (simp_all add: applyRules_def)
  show ?thesis
    using soft last passes returnSolution_Some by blast
qed

theorem applyInference_soft_failures_witness:
  "applyInference 3 C_ex K_ex 9 0 0 0 s_ex
     = Some (Inr (101, s_ex\<lparr>log := [Rules_set_is_not_valid]\<rparr>))
   \<and> applyInference 3 C_throw K_ex 9 20 0 0 s_ex
     = Some (Inr (101, s_ex\<lparr>log := [Error_what ''no next tier'']\<rparr>))
   \<and> applyInference 3 C_ex K_ex 9 19 0 0 s_ex
     = Some (Inr (101, s_ex\<lparr>log := [No_rule_sets_found]\<rparr>))
   \<and> (\<exists>achieved s'. applyInference 3 C_ex K_ex 9 19 0 0 s_ex = returnSolution C_ex achieved s')
   \<and> createRulesQueuesListByPriority C_cyclic K_ex m_ex 20 = Inl bad_alloc
   \<and> applyInference 3 C_cyclic K_ex 9 20 0 0 s_ex = Some (Inl bad_alloc)"
proof -
  have c: "collectArguments C_ex 0 s_ex = Inr ([], s_ex)"
    "collectArguments C_throw 0 s_ex = Inr ([], s_ex)"
    "collectArguments C_cyclic 0 s_ex = Inr ([], s_ex)"
    by (simp_all add: collectArguments_def IsValid_def)
  have v: "\<not> (IsValid 0 \<and> ([]::nat list) = [])" "\<not> IsValid 0" "IsValid 20" "IsValid 19"
    by (simp_all add: IsValid_def)
  have t: "isTargetAchieved C_ex (setInputStructure 0 (world s_ex)) 9 [] = (False, world s_ex)"
    "isTargetAchieved C_throw (setInputStructure 0 (world s_ex)) 9 [] = (False, world s_ex)"
    "isTargetAchieved C_cyclic (setInputStructure 0 (world s_ex)) 9 [] = (False, world s_ex)"
    by (simp_all add: isTargetAchieved_def setInputStructure_def C_throw_def C_cyclic_def
          C_ex_def s_ex_def known_m_ex)
  have q: "createRulesQueuesListByPriority C_throw K_ex (ms_context (world s_ex)) 20
             = Inl (runtime_error ''no next tier'')"
    "createRulesQueuesListByPriority C_ex K_ex (ms_context (world s_ex)) 19 = Inr []"
    by (simp_all add: createRulesQueuesListByPriority_def rulesQueuesLoop.simps createQueue_def
          addToQueue_def C_throw_def C_ex_def K_ex_def IsValid_def)
  have qc: "createRulesQueuesListByPriority C_cyclic K_ex (ms_context (world s_ex)) 20
             = Inl bad_alloc"
    by (simp add: createRulesQueuesListByPriority_def rulesQueuesLoop.simps createQueue_def
          addToQueue_def C_cyclic_def C_ex_def K_ex_def IsValid_def)
  have s: "returnSolution C_ex False x = Some (Inr (101, x))"
    "returnSolution C_throw False x = Some (Inr (101, x))" for x
    by (simp_all add: returnSolution_def C_throw_def C_ex_def)
  have a1: "applyInference 3 C_ex K_ex 9 0 0 0 s_ex
     = Some (Inr (101, s_ex\<lparr>log := [Rules_set_is_not_valid]\<rparr>))"
    using v applyInference_soft_failures [OF c(1) v(1) t(1), where ruleSet = 0 and fuel = 3
        and K = K_ex and out = 0]
    by (simp add: s writeLog_def s_ex_def)
  have a2: "applyInference 3 C_throw K_ex 9 20 0 0 s_ex
     = Some (Inr (101, s_ex\<lparr>log := [Error_what ''no next tier'']\<rparr>))"
    using v q applyInference_soft_failures [OF c(2) v(1) t(2), where ruleSet = 20 and fuel = 3
        and K = K_ex and out = 0 and what = "''no next tier''"]
    by (simp add: s writeLog_def s_ex_def)
  have a3: "applyInference 3 C_ex K_ex 9 19 0 0 s_ex
     = Some (Inr (101, s_ex\<lparr>log := [No_rule_sets_found]\<rparr>))"
    using v q applyInference_soft_failures [OF c(1) v(1) t(1), where ruleSet = 19 and fuel = 3
        and K = K_ex and out = 0]
    by (simp add: s writeLog_def s_ex_def)
  have a4: "\<exists>achieved s'. applyInference 3 C_ex K_ex 9 19 0 0 s_ex = returnSolution C_ex achieved s'"
    using a3 applyInference_soft_failures [OF c(1) v(1) t(1), where ruleSet = 19 and fuel = 3
        and K = K_ex and out = 0
        and x = "(101, s_ex\<lparr>log := [No_rule_sets_found]\<rparr>)"]
    by metis
  have a5: "applyInference 3 C_cyclic K_ex 9 20 0 0 s_ex = Some (Inl bad_alloc)"
    using v qc applyInference_soft_failures [OF c(3) v(1) t(3), where ruleSet = 20 and fuel = 3
        and K = K_ex and out = 0 and e = bad_alloc]
    by simp
  show ?thesis using a1 a2 a3 a4 a5 qc by (simp add: s_ex_def)
qed

text \<open>
  A run that does not end: two tiers with one rule each, rules that always hold, and a
  target that is never achieved. After each success in tier 1 the index is set to 0 and
  then incremented, so tier 1 is scanned again. The store does not grow: each turn erases
  the record of rule 2 and writes it again.
\<close>

lemma mem_steps:
  "clearSatisfiabilityInformation K_ex 1 3 m_ex = m_ex"
  "addSatisfiabilityInformation K_ex 1 3 True m_ex
     = m_ex @ [(11, ScEdge ScType_EdgeDCommonConst 1 3),
               (12, ScEdge ScType_EdgeAccessConstPosTemp 4 11)]"
  "clearSatisfiabilityInformation K_ex 2 3
     (m_ex @ [(11, ScEdge ScType_EdgeDCommonConst 1 3),
              (12, ScEdge ScType_EdgeAccessConstPosTemp 4 11)])
     = m_ex @ [(11, ScEdge ScType_EdgeDCommonConst 1 3),
               (12, ScEdge ScType_EdgeAccessConstPosTemp 4 11)]"
  "addSatisfiabilityInformation K_ex 2 3 True
     (m_ex @ [(11, ScEdge ScType_EdgeDCommonConst 1 3),
              (12, ScEdge ScType_EdgeAccessConstPosTemp 4 11)])
     = m_ex @ [(11, ScEdge ScType_EdgeDCommonConst 1 3),
               (12, ScEdge ScType_EdgeAccessConstPosTemp 4 11),
               (13, ScEdge ScType_EdgeDCommonConst 2 3),
               (14, ScEdge ScType_EdgeAccessConstPosTemp 4 13)]"
  "clearSatisfiabilityInformation K_ex 2 3
     (m_ex @ [(11, ScEdge ScType_EdgeDCommonConst 1 3),
               (12, ScEdge ScType_EdgeAccessConstPosTemp 4 11),
               (13, ScEdge ScType_EdgeDCommonConst 2 3),
               (14, ScEdge ScType_EdgeAccessConstPosTemp 4 13)])
     = m_ex @ [(11, ScEdge ScType_EdgeDCommonConst 1 3),
               (12, ScEdge ScType_EdgeAccessConstPosTemp 4 11)]"
  "\<not> known (m_ex @ [(11, ScEdge ScType_EdgeDCommonConst 1 3),
               (12, ScEdge ScType_EdgeAccessConstPosTemp 4 11)]) 9"
  "\<not> known (m_ex @ [(11, ScEdge ScType_EdgeDCommonConst 1 3),
               (12, ScEdge ScType_EdgeAccessConstPosTemp 4 11),
               (13, ScEdge ScType_EdgeDCommonConst 2 3),
               (14, ScEdge ScType_EdgeAccessConstPosTemp 4 13)]) 9"
  by code_simp+

lemma C_always_fields:
  "getAnyByOutRelation C_always m 1 (rrel_main_key_sc_element K_ex) = Inr 11"
  "getAnyByOutRelation C_always m 2 (rrel_main_key_sc_element K_ex) = Inr 12"
  "logicExpression C_always w key arguments out = ((True, arguments), w)"
  "createTemplateParams C_always w t arguments = ([[]], w)"
  "searchTemplate C_always w t p = (if known (ms_context w) t then [[]] else [], w)"
  by (simp_all add: C_always_def C_ex_def K_ex_def)

lemma forLoop_always_runs_on:
  "forLoop fuel C_always K_ex 9 3 0 [[1], [2]]
     \<lparr>ruleQueueIndex = 1, uncheckedRules = [], checkedRuleList = [], argumentList = [],
      targetAchieved = False,
      state = \<lparr>world = \<lparr>ms_context =
                           m_ex @ [(11, ScEdge ScType_EdgeDCommonConst 1 3),
                                   (12, ScEdge ScType_EdgeAccessConstPosTemp 4 11),
                                   (13, ScEdge ScType_EdgeDCommonConst 2 3),
                                   (14, ScEdge ScType_EdgeAccessConstPosTemp 4 13)],
                         searcher_params = [], searcher_inputStructure = 0\<rparr>,
               log = lg\<rparr>\<rparr>
   = None"
proof (induction fuel arbitrary: lg)
  case 0
  show ?case by (simp add: forLoop.simps)
next
  case (Suc n)
  show ?case
    apply (subst forLoop.simps)
    apply (simp add: whileLoop.simps whileBody_def useRule_def isTargetAchieved_def
             updateMemory_def writeLog_def addToQueue_def IsValid_def
             C_always_fields mem_steps del: One_nat_def)
    apply (rule Suc.IH)
    done
qed


lemma C_always_construction:
  "createRulesQueuesListByPriority C_always K_ex m_ex 20 = Inr [[1], [2]]"
  "knowledge_base_IMS K_ex = 3"
  by (simp_all add: createRulesQueuesListByPriority_def rulesQueuesLoop.simps createQueue_def
        addToQueue_def IsValid_def C_always_def C_ex_def K_ex_def del: One_nat_def)

lemma applyInference_always_None:
  "applyInference fuel C_always K_ex 9 20 0 0 s_ex = None"
proof -
  have start: "applyInference fuel C_always K_ex 9 20 0 0 s_ex
                 = applyRules fuel C_always K_ex 9 20 0 0 [] s_ex"
    by (simp add: applyInference_def collectArguments_def IsValid_def isTargetAchieved_def
          setInputStructure_def C_always_fields s_ex_def known_m_ex)
  have first: "forLoop (Suc n) C_always K_ex 9 3 0 [[1], [2]]
            \<lparr>ruleQueueIndex = 0, uncheckedRules = [], checkedRuleList = [],
             argumentList = [], targetAchieved = False,
             state = writeLog (Start_rule_applying (Suc (Suc 0))) s_ex\<rparr>
         = forLoop n C_always K_ex 9 3 0 [[1], [2]]
            \<lparr>ruleQueueIndex = 1, uncheckedRules = [], checkedRuleList = [],
             argumentList = [], targetAchieved = False,
             state = \<lparr>world = \<lparr>ms_context =
                            m_ex @ [(11, ScEdge ScType_EdgeDCommonConst 1 3),
                                    (12, ScEdge ScType_EdgeAccessConstPosTemp 4 11)],
                          searcher_params = [], searcher_inputStructure = 0\<rparr>,
                      log = [Start_rule_applying (Suc (Suc 0)), Using_rule 1,
                             Trying_to_use_rule 1, Whole_statement_is True]\<rparr>\<rparr>" for n
    apply (subst forLoop.simps)
    apply (simp add: whileLoop.simps whileBody_def useRule_def isTargetAchieved_def
             updateMemory_def writeLog_def addToQueue_def IsValid_def s_ex_def
             C_always_fields mem_steps known_m_ex del: One_nat_def)
    done
  have second: "forLoop (Suc n) C_always K_ex 9 3 0 [[1], [2]]
            \<lparr>ruleQueueIndex = 1, uncheckedRules = [], checkedRuleList = [],
             argumentList = [], targetAchieved = False,
             state = \<lparr>world = \<lparr>ms_context =
                            m_ex @ [(11, ScEdge ScType_EdgeDCommonConst 1 3),
                                    (12, ScEdge ScType_EdgeAccessConstPosTemp 4 11)],
                          searcher_params = [], searcher_inputStructure = 0\<rparr>,
                      log = lg\<rparr>\<rparr>
         = None" for n lg
    apply (subst forLoop.simps)
    apply (simp add: whileLoop.simps whileBody_def useRule_def isTargetAchieved_def
             updateMemory_def writeLog_def addToQueue_def IsValid_def
             C_always_fields mem_steps del: One_nat_def)
    apply (rule forLoop_always_runs_on)
    done
  have stop: "forLoop 0 C_always K_ex 9 3 0 [[1], [2]]
            \<lparr>ruleQueueIndex = i, uncheckedRules = [], checkedRuleList = [],
             argumentList = [], targetAchieved = False, state = st\<rparr> = None"
    if "i < 2" for i st
    using that by (simp add: forLoop.simps)
  have "forLoop fuel C_always K_ex 9 3 0 [[1], [2]]
            \<lparr>ruleQueueIndex = 0, uncheckedRules = [], checkedRuleList = [],
             argumentList = [], targetAchieved = False,
             state = writeLog (Start_rule_applying (Suc (Suc 0))) s_ex\<rparr> = None"
  proof -
    consider "fuel = 0" | "fuel = Suc 0" | n where "fuel = Suc (Suc n)"
      by (metis nat.exhaust)
    then show ?thesis
    proof cases
      case 1
      then show ?thesis using stop[of 0] by simp
    next
      case 2
      then show ?thesis using first[of 0] stop[of 1] by simp
    next
      case 3
      then show ?thesis using first[of "Suc n"] second[of n] by simp
    qed
  qed
  then have "applyRules fuel C_always K_ex 9 20 0 0 [] s_ex = None"
    by (simp add: applyRules_def IsValid_def C_always_construction s_ex_def writeLog_def
           del: One_nat_def)
  then show ?thesis using start by simp
qed

text \<open>
  Claim C6, as stated, fails in its last part: not every execution path ends by returning
  a Solution record. The run above returns nothing, however many turns it is allowed.
\<close>

theorem applyInference_never_returns_counterexample:
  "\<not> (\<exists>fuel r. applyInference fuel C_always K_ex 9 20 0 0 s_ex = Some r)"
  by (simp add: applyInference_always_None)


section \<open>The main loop\<close>

lemma whileBody_turn:
  assumes "uncheckedRules L = rule # rest"
    and "useRule C K out rule (argumentList L)
           (writeLog (Using_rule rule)
              (updateMemory (clearSatisfiabilityInformation K rule model) (state L)))
         = Inr ((isUsed, arguments'), s3)"
    and "whileBody C K t model out rule L = Inr (False, L')"
  shows "(isUsed \<longrightarrow> uncheckedRules L' = rest @ checkedRuleList L \<and> checkedRuleList L' = []
                     \<and> ruleQueueIndex L' = 0)
       \<and> (\<not> isUsed \<longrightarrow> uncheckedRules L' = rest \<and> checkedRuleList L' = checkedRuleList L @ [rule]
                     \<and> ruleQueueIndex L' = ruleQueueIndex L)"
  using assms
  by (auto simp: whileBody_def Let_def addToQueue_def split: prod.splits if_splits)

lemma whileBody_break: "whileBody C K t model out rule L = Inr (True, L') \<Longrightarrow> targetAchieved L'"
  by (auto simp: whileBody_def Let_def split: sum.splits prod.splits if_splits)


lemma whileBody_appends:
  "uncheckedRules L = rule # rest \<Longrightarrow> whileBody C K t model out rule L = Inr (False, L')
     \<Longrightarrow> \<exists>appended. uncheckedRules L' = rest @ appended"
  by (auto simp: whileBody_def Let_def addToQueue_def split: sum.splits prod.splits if_splits)

lemma whileLoop_turns:
  "whileLoop C K t model out L = Inr Lf
     \<Longrightarrow> \<exists>rs M. turns C K t model out L rs M
           \<and> ((M = Lf \<and> uncheckedRules Lf = [] \<and> (\<exists>more. rs = uncheckedRules L @ more))
              \<or> (\<exists>r q. uncheckedRules M = r # q
                       \<and> whileBody C K t model out r M = Inr (True, Lf)
                       \<and> targetAchieved Lf))"
proof (induction C K t model out L rule: whileLoop.induct)
  case (1 C K t model out L)
  show ?case
  proof (cases "uncheckedRules L")
    case Nil
    then have "Lf = L" using "1.prems" by (simp add: whileLoop.simps)
    then show ?thesis using Nil turns.no_turn by fastforce
  next
    case (Cons rule rest)
    from "1.prems"(1) Cons obtain brk L' where
      b: "whileBody C K t model out rule L = Inr (brk, L')"
      by (auto simp: whileLoop.simps[of C K t model out L] split: sum.splits)
    show ?thesis
    proof (cases brk)
      case True
      then have "Lf = L'"
        using "1.prems"(1) Cons b by (simp add: whileLoop.simps[of C K t model out L])
      then have "whileBody C K t model out rule L = Inr (True, Lf)" "targetAchieved Lf"
        using b True whileBody_break[of C K t model out rule L L'] by simp_all
      then show ?thesis using Cons turns.no_turn by blast
    next
      case False
      then have w: "whileLoop C K t model out L' = Inr Lf"
        using "1.prems"(1) Cons b by (simp add: whileLoop.simps[of C K t model out L])
      have nb: "\<not> brk" using False .
      from "1.IH"[OF Cons b refl nb w]
      obtain rs M where
        ih: "turns C K t model out L' rs M"
            "(M = Lf \<and> uncheckedRules Lf = [] \<and> (\<exists>more. rs = uncheckedRules L' @ more))
              \<or> (\<exists>r q. uncheckedRules M = r # q
                       \<and> whileBody C K t model out r M = Inr (True, Lf)
                       \<and> targetAchieved Lf)"
        by blast
      have b': "whileBody C K t model out rule L = Inr (False, L')" using b False by simp
      have step: "turns C K t model out L (rule # rs) M"
        using Cons b' ih(1) by (rule turns.one_more)
      from whileBody_appends[OF Cons b'] obtain appended where
        a: "uncheckedRules L' = rest @ appended" by blast
      have "(\<exists>more. rs = uncheckedRules L' @ more)
              \<Longrightarrow> (\<exists>more. rule # rs = uncheckedRules L @ more)"
        using Cons a by auto
      then show ?thesis using step ih(2) by blast
    qed
  qed
qed

text \<open>
  The loop variables after the first and the second turn on the queue 3, 1, 2 with the
  target \<open>Pv\<close> (8), and at the end of that loop.
\<close>

lemma three_rules_run:
  "whileBody C_ex K_ex 8 3 0 3 L_three
     = Inr (False,
         \<lparr>ruleQueueIndex = 0, uncheckedRules = [1, 2], checkedRuleList = [3],
          argumentList = [], targetAchieved = False,
          state = \<lparr>world = \<lparr>ms_context =
                       m_ex @ [(11, ScEdge ScType_EdgeDCommonConst 3 3),
                               (12, ScEdge ScType_EdgeAccessConstNegTemp 4 11)],
                     searcher_params = [], searcher_inputStructure = 0\<rparr>,
                   log = [Using_rule 3, Trying_to_use_rule 3]\<rparr>\<rparr>)"
  "whileBody C_ex K_ex 8 3 0 1
     \<lparr>ruleQueueIndex = 0, uncheckedRules = [1, 2], checkedRuleList = [3],
      argumentList = [], targetAchieved = False,
      state = \<lparr>world = \<lparr>ms_context =
                   m_ex @ [(11, ScEdge ScType_EdgeDCommonConst 3 3),
                           (12, ScEdge ScType_EdgeAccessConstNegTemp 4 11)],
                 searcher_params = [], searcher_inputStructure = 0\<rparr>,
               log = [Using_rule 3, Trying_to_use_rule 3]\<rparr>\<rparr>
     = Inr (False,
         \<lparr>ruleQueueIndex = 0, uncheckedRules = [2, 3], checkedRuleList = [],
          argumentList = [], targetAchieved = False,
          state = \<lparr>world = \<lparr>ms_context =
                       m_ex @ [(11, ScEdge ScType_EdgeDCommonConst 3 3),
                               (12, ScEdge ScType_EdgeAccessConstNegTemp 4 11),
                               (13, ScEdge ScType_EdgeAccessConstPosPerm 5 7),
                               (14, ScEdge ScType_EdgeDCommonConst 1 3),
                               (15, ScEdge ScType_EdgeAccessConstPosTemp 4 14)],
                     searcher_params = [], searcher_inputStructure = 0\<rparr>,
                   log = [Using_rule 3, Trying_to_use_rule 3, Using_rule 1,
                          Trying_to_use_rule 1, Whole_statement_is True]\<rparr>\<rparr>)"
  "whileLoop C_ex K_ex 8 3 0 L_three
     = Inr \<lparr>ruleQueueIndex = 0, uncheckedRules = [2, 3], checkedRuleList = [],
            argumentList = [], targetAchieved = True,
            state = \<lparr>world = \<lparr>ms_context =
                         m_ex @ [(11, ScEdge ScType_EdgeDCommonConst 3 3),
                                 (12, ScEdge ScType_EdgeAccessConstNegTemp 4 11),
                                 (13, ScEdge ScType_EdgeAccessConstPosPerm 5 7),
                                 (14, ScEdge ScType_EdgeDCommonConst 1 3),
                                 (15, ScEdge ScType_EdgeAccessConstPosTemp 4 14),
                                 (16, ScEdge ScType_EdgeAccessConstPosPerm 5 8),
                                 (17, ScEdge ScType_EdgeDCommonConst 2 3),
                                 (18, ScEdge ScType_EdgeAccessConstPosTemp 4 17)],
                       searcher_params = [], searcher_inputStructure = 0\<rparr>,
                     log = [Using_rule 3, Trying_to_use_rule 3, Using_rule 1,
                            Trying_to_use_rule 1, Whole_statement_is True, Using_rule 2,
                            Trying_to_use_rule 2, Whole_statement_is True,
                            Target_achieved_in_applyInterference]\<rparr>\<rparr>"
  by code_simp+

text \<open>
  Claim C10, as stated, fails: a rule that was appended back is not attempted again when a
  rule before it in the queue achieves the target. In the queue 3, 1, 2 rule 3 fails,
  rule 1 is used without achieving the target and rule 3 is appended back (the queue is
  2, 3); then rule 2 achieves the target, the loop leaves by \<^verbatim>\<open>break\<close> with rule 3 still
  queued, and rule 3 has had its one turn only.
\<close>

theorem requeued_rule_not_attempted_counterexample:
  "whileBody C_ex K_ex 8 3 0 3 L_three
     = Inr (False,
         \<lparr>ruleQueueIndex = 0, uncheckedRules = [1, 2], checkedRuleList = [3],
          argumentList = [], targetAchieved = False,
          state = \<lparr>world = \<lparr>ms_context =
                       m_ex @ [(11, ScEdge ScType_EdgeDCommonConst 3 3),
                               (12, ScEdge ScType_EdgeAccessConstNegTemp 4 11)],
                     searcher_params = [], searcher_inputStructure = 0\<rparr>,
                   log = [Using_rule 3, Trying_to_use_rule 3]\<rparr>\<rparr>)
   \<and> whileBody C_ex K_ex 8 3 0 1
     \<lparr>ruleQueueIndex = 0, uncheckedRules = [1, 2], checkedRuleList = [3],
      argumentList = [], targetAchieved = False,
      state = \<lparr>world = \<lparr>ms_context =
                   m_ex @ [(11, ScEdge ScType_EdgeDCommonConst 3 3),
                           (12, ScEdge ScType_EdgeAccessConstNegTemp 4 11)],
                 searcher_params = [], searcher_inputStructure = 0\<rparr>,
               log = [Using_rule 3, Trying_to_use_rule 3]\<rparr>\<rparr>
     = Inr (False,
         \<lparr>ruleQueueIndex = 0, uncheckedRules = [2, 3], checkedRuleList = [],
          argumentList = [], targetAchieved = False,
          state = \<lparr>world = \<lparr>ms_context =
                       m_ex @ [(11, ScEdge ScType_EdgeDCommonConst 3 3),
                               (12, ScEdge ScType_EdgeAccessConstNegTemp 4 11),
                               (13, ScEdge ScType_EdgeAccessConstPosPerm 5 7),
                               (14, ScEdge ScType_EdgeDCommonConst 1 3),
                               (15, ScEdge ScType_EdgeAccessConstPosTemp 4 14)],
                     searcher_params = [], searcher_inputStructure = 0\<rparr>,
                   log = [Using_rule 3, Trying_to_use_rule 3, Using_rule 1,
                          Trying_to_use_rule 1, Whole_statement_is True]\<rparr>\<rparr>)
   \<and> whileLoop C_ex K_ex 8 3 0 L_three
     = Inr \<lparr>ruleQueueIndex = 0, uncheckedRules = [2, 3], checkedRuleList = [],
            argumentList = [], targetAchieved = True,
            state = \<lparr>world = \<lparr>ms_context =
                         m_ex @ [(11, ScEdge ScType_EdgeDCommonConst 3 3),
                                 (12, ScEdge ScType_EdgeAccessConstNegTemp 4 11),
                                 (13, ScEdge ScType_EdgeAccessConstPosPerm 5 7),
                                 (14, ScEdge ScType_EdgeDCommonConst 1 3),
                                 (15, ScEdge ScType_EdgeAccessConstPosTemp 4 14),
                                 (16, ScEdge ScType_EdgeAccessConstPosPerm 5 8),
                                 (17, ScEdge ScType_EdgeDCommonConst 2 3),
                                 (18, ScEdge ScType_EdgeAccessConstPosTemp 4 17)],
                       searcher_params = [], searcher_inputStructure = 0\<rparr>,
                     log = [Using_rule 3, Trying_to_use_rule 3, Using_rule 1,
                            Trying_to_use_rule 1, Whole_statement_is True, Using_rule 2,
                            Trying_to_use_rule 2, Whole_statement_is True,
                            Target_achieved_in_applyInterference]\<rparr>\<rparr>"
  using three_rules_run by blast

text \<open>
  Claim C10, amended. In a turn of the main loop that uses its rule without achieving the
  target, the rules of the checked-rule list are appended to the current queue, the
  checked-rule list is emptied and the tier index is set to 0. In a turn whose rule is not
  used, the rule only moves from the queue to the checked-rule list. The loop then goes on
  with the queue as the turn left it, one turn of lines 90 to 116 for the rule at its
  front. When it ends, either the queue is drained and every rule of that queue, the
  appended ones among them, has had its turn, in the order of the queue; or a turn has
  achieved the target and left by \<^verbatim>\<open>break\<close>, and the rules still queued then are not
  attempted. The checked-rule list is not cleared between tiers, so it may also hold
  rules that failed in earlier tiers.
\<close>

theorem failed_rules_requeued_after_success:
  assumes "uncheckedRules L = rule # rest"
    and "useRule C K out rule (argumentList L)
           (writeLog (Using_rule rule)
              (updateMemory (clearSatisfiabilityInformation K rule model) (state L)))
         = Inr ((isUsed, arguments'), s3)"
    and "whileBody C K t model out rule L = Inr (False, L')"
  shows "(isUsed \<longrightarrow> uncheckedRules L' = rest @ checkedRuleList L \<and> checkedRuleList L' = []
                     \<and> ruleQueueIndex L' = 0)
       \<and> (\<not> isUsed \<longrightarrow> uncheckedRules L' = rest \<and> checkedRuleList L' = checkedRuleList L @ [rule]
                     \<and> ruleQueueIndex L' = ruleQueueIndex L)
       \<and> whileLoop C K t model out L = whileLoop C K t model out L'
       \<and> (\<forall>Lf. whileLoop C K t model out L' = Inr Lf
             \<longrightarrow> (\<exists>rs M. turns C K t model out L' rs M
                    \<and> ((M = Lf \<and> uncheckedRules Lf = []
                          \<and> (\<exists>more. rs = uncheckedRules L' @ more))
                       \<or> (\<exists>r q. uncheckedRules M = r # q
                                \<and> whileBody C K t model out r M = Inr (True, Lf)
                                \<and> targetAchieved Lf))))"
proof -
  have same: "whileLoop C K t model out L = whileLoop C K t model out L'"
    using assms(1,3) by (simp add: whileLoop.simps[of C K t model out L])
  have "\<exists>rs M. turns C K t model out L' rs M
           \<and> ((M = Lf \<and> uncheckedRules Lf = [] \<and> (\<exists>more. rs = uncheckedRules L' @ more))
              \<or> (\<exists>r q. uncheckedRules M = r # q
                       \<and> whileBody C K t model out r M = Inr (True, Lf)
                       \<and> targetAchieved Lf))"
    if "whileLoop C K t model out L' = Inr Lf" for Lf
    using that by (rule whileLoop_turns)
  then show ?thesis using whileBody_turn[OF assms] same by blast
qed

theorem failed_rules_requeued_after_success_witness:
  "uncheckedRules L_ex = [2] \<and> checkedRuleList L_ex = [1]
   \<and> (\<exists>L' Lf. whileBody C_ex K_ex 5 3 0 2 L_ex = Inr (False, L')
            \<and> uncheckedRules L' = [1] \<and> checkedRuleList L' = [] \<and> ruleQueueIndex L' = 0
            \<and> whileLoop C_ex K_ex 5 3 0 L_ex = Inr Lf
            \<and> (\<exists>rs M. turns C_ex K_ex 5 3 0 L' rs M
                    \<and> ((M = Lf \<and> uncheckedRules Lf = []
                          \<and> (\<exists>more. rs = uncheckedRules L' @ more))
                       \<or> (\<exists>r q. uncheckedRules M = r # q
                                \<and> whileBody C_ex K_ex 5 3 0 r M = Inr (True, Lf)
                                \<and> targetAchieved Lf)))
            \<and> \<not> targetAchieved Lf)
   \<and> (\<exists>L' Lf. whileBody C_ex K_ex 8 3 0 3 L_three = Inr (False, L')
            \<and> uncheckedRules L' = [1, 2] \<and> checkedRuleList L' = [3]
            \<and> whileLoop C_ex K_ex 8 3 0 L_three = Inr Lf
            \<and> (\<exists>rs M. turns C_ex K_ex 8 3 0 L' rs M
                    \<and> ((M = Lf \<and> uncheckedRules Lf = []
                          \<and> (\<exists>more. rs = uncheckedRules L' @ more))
                       \<or> (\<exists>r q. uncheckedRules M = r # q
                                \<and> whileBody C_ex K_ex 8 3 0 r M = Inr (True, Lf)
                                \<and> targetAchieved Lf)))
            \<and> uncheckedRules Lf = [2, 3])"
proof -
  let ?L1 = "\<lparr>ruleQueueIndex = 0, uncheckedRules = [1], checkedRuleList = [],
              argumentList = [], targetAchieved = False,
              state = \<lparr>world = \<lparr>ms_context =
                          m_ex @ [(11, ScEdge ScType_EdgeAccessConstPosPerm 5 7),
                                  (12, ScEdge ScType_EdgeAccessConstPosPerm 5 8),
                                  (13, ScEdge ScType_EdgeDCommonConst 2 3),
                                  (14, ScEdge ScType_EdgeAccessConstPosTemp 4 13)],
                          searcher_params = [], searcher_inputStructure = 0\<rparr>,
                       log = [Using_rule 2, Trying_to_use_rule 2, Whole_statement_is True]\<rparr>\<rparr>"
  let ?Lf = "\<lparr>ruleQueueIndex = 0, uncheckedRules = [], checkedRuleList = [],
              argumentList = [], targetAchieved = False,
              state = \<lparr>world = \<lparr>ms_context =
                          m_ex @ [(11, ScEdge ScType_EdgeAccessConstPosPerm 5 7),
                                  (12, ScEdge ScType_EdgeAccessConstPosPerm 5 8),
                                  (13, ScEdge ScType_EdgeDCommonConst 2 3),
                                  (14, ScEdge ScType_EdgeAccessConstPosTemp 4 13),
                                  (15, ScEdge ScType_EdgeAccessConstPosPerm 5 9),
                                  (16, ScEdge ScType_EdgeDCommonConst 1 3),
                                  (17, ScEdge ScType_EdgeAccessConstPosTemp 4 16)],
                          searcher_params = [], searcher_inputStructure = 0\<rparr>,
                       log = [Using_rule 2, Trying_to_use_rule 2, Whole_statement_is True,
                              Using_rule 1, Trying_to_use_rule 1, Whole_statement_is True]\<rparr>\<rparr>"
  let ?T1 = "\<lparr>ruleQueueIndex = 0, uncheckedRules = [1, 2], checkedRuleList = [3],
          argumentList = [], targetAchieved = False,
          state = \<lparr>world = \<lparr>ms_context =
                       m_ex @ [(11, ScEdge ScType_EdgeDCommonConst 3 3),
                               (12, ScEdge ScType_EdgeAccessConstNegTemp 4 11)],
                     searcher_params = [], searcher_inputStructure = 0\<rparr>,
                   log = [Using_rule 3, Trying_to_use_rule 3]\<rparr>\<rparr>"
  let ?Tf = "\<lparr>ruleQueueIndex = 0, uncheckedRules = [2, 3], checkedRuleList = [],
            argumentList = [], targetAchieved = True,
            state = \<lparr>world = \<lparr>ms_context =
                         m_ex @ [(11, ScEdge ScType_EdgeDCommonConst 3 3),
                                 (12, ScEdge ScType_EdgeAccessConstNegTemp 4 11),
                                 (13, ScEdge ScType_EdgeAccessConstPosPerm 5 7),
                                 (14, ScEdge ScType_EdgeDCommonConst 1 3),
                                 (15, ScEdge ScType_EdgeAccessConstPosTemp 4 14),
                                 (16, ScEdge ScType_EdgeAccessConstPosPerm 5 8),
                                 (17, ScEdge ScType_EdgeDCommonConst 2 3),
                                 (18, ScEdge ScType_EdgeAccessConstPosTemp 4 17)],
                       searcher_params = [], searcher_inputStructure = 0\<rparr>,
                     log = [Using_rule 3, Trying_to_use_rule 3, Using_rule 1,
                            Trying_to_use_rule 1, Whole_statement_is True, Using_rule 2,
                            Trying_to_use_rule 2, Whole_statement_is True,
                            Target_achieved_in_applyInterference]\<rparr>\<rparr>"
  have q: "uncheckedRules L_ex = 2 # []" "uncheckedRules L_three = 3 # [1, 2]"
    by (simp_all add: L_ex_def L_three_def)
  have u1: "useRule C_ex K_ex 0 2 (argumentList L_ex)
             (writeLog (Using_rule 2)
               (updateMemory (clearSatisfiabilityInformation K_ex 2 3) (state L_ex)))
           = Inr ((True, []),
                  \<lparr>world = \<lparr>ms_context =
                          m_ex @ [(11, ScEdge ScType_EdgeAccessConstPosPerm 5 7),
                                  (12, ScEdge ScType_EdgeAccessConstPosPerm 5 8)],
                          searcher_params = [], searcher_inputStructure = 0\<rparr>,
                    log = [Using_rule 2, Trying_to_use_rule 2, Whole_statement_is True]\<rparr>)"
    by code_simp
  have b1: "whileBody C_ex K_ex 5 3 0 2 L_ex = Inr (False, ?L1)"
    by code_simp
  have w1: "whileLoop C_ex K_ex 5 3 0 L_ex = Inr ?Lf"
    by code_simp
  have u2: "useRule C_ex K_ex 0 3 (argumentList L_three)
             (writeLog (Using_rule 3)
               (updateMemory (clearSatisfiabilityInformation K_ex 3 3) (state L_three)))
           = Inr ((False, []),
                  \<lparr>world = \<lparr>ms_context = m_ex, searcher_params = [],
                             searcher_inputStructure = 0\<rparr>,
                    log = [Using_rule 3, Trying_to_use_rule 3]\<rparr>)"
    by code_simp
  have b2: "whileBody C_ex K_ex 8 3 0 3 L_three = Inr (False, ?T1)"
    using three_rules_run(1) .
  have w2: "whileLoop C_ex K_ex 8 3 0 L_three = Inr ?Tf"
    using three_rules_run(3) .
  note first = failed_rules_requeued_after_success [OF q(1) u1 b1]
  note second = failed_rules_requeued_after_success [OF q(2) u2 b2]
  have r1: "uncheckedRules ?L1 = [] @ checkedRuleList L_ex \<and> checkedRuleList ?L1 = []
            \<and> ruleQueueIndex ?L1 = 0"
    using first by blast
  have "whileLoop C_ex K_ex 5 3 0 ?L1 = Inr ?Lf"
    using first w1 by simp
  then have r2: "\<exists>rs M. turns C_ex K_ex 5 3 0 ?L1 rs M
                    \<and> ((M = ?Lf \<and> uncheckedRules ?Lf = []
                          \<and> (\<exists>more. rs = uncheckedRules ?L1 @ more))
                       \<or> (\<exists>r q. uncheckedRules M = r # q
                                \<and> whileBody C_ex K_ex 5 3 0 r M = Inr (True, ?Lf)
                                \<and> targetAchieved ?Lf))"
    using first by blast
  have r3: "uncheckedRules ?T1 = [1, 2] \<and> checkedRuleList ?T1 = checkedRuleList L_three @ [3]"
    using second by blast
  have "whileLoop C_ex K_ex 8 3 0 ?T1 = Inr ?Tf"
    using second w2 by simp
  then have r4: "\<exists>rs M. turns C_ex K_ex 8 3 0 ?T1 rs M
                    \<and> ((M = ?Tf \<and> uncheckedRules ?Tf = []
                          \<and> (\<exists>more. rs = uncheckedRules ?T1 @ more))
                       \<or> (\<exists>r q. uncheckedRules M = r # q
                                \<and> whileBody C_ex K_ex 8 3 0 r M = Inr (True, ?Tf)
                                \<and> targetAchieved ?Tf))"
    using second by blast
  have part1: "\<exists>L' Lf. whileBody C_ex K_ex 5 3 0 2 L_ex = Inr (False, L')
            \<and> uncheckedRules L' = [1] \<and> checkedRuleList L' = [] \<and> ruleQueueIndex L' = 0
            \<and> whileLoop C_ex K_ex 5 3 0 L_ex = Inr Lf
            \<and> (\<exists>rs M. turns C_ex K_ex 5 3 0 L' rs M
                    \<and> ((M = Lf \<and> uncheckedRules Lf = []
                          \<and> (\<exists>more. rs = uncheckedRules L' @ more))
                       \<or> (\<exists>r q. uncheckedRules M = r # q
                                \<and> whileBody C_ex K_ex 5 3 0 r M = Inr (True, Lf)
                                \<and> targetAchieved Lf)))
            \<and> \<not> targetAchieved Lf"
    using b1 w1 r2 by (intro exI[of _ ?L1] exI[of _ ?Lf]) simp
  have part2: "\<exists>L' Lf. whileBody C_ex K_ex 8 3 0 3 L_three = Inr (False, L')
            \<and> uncheckedRules L' = [1, 2] \<and> checkedRuleList L' = [3]
            \<and> whileLoop C_ex K_ex 8 3 0 L_three = Inr Lf
            \<and> (\<exists>rs M. turns C_ex K_ex 8 3 0 L' rs M
                    \<and> ((M = Lf \<and> uncheckedRules Lf = []
                          \<and> (\<exists>more. rs = uncheckedRules L' @ more))
                       \<or> (\<exists>r q. uncheckedRules M = r # q
                                \<and> whileBody C_ex K_ex 8 3 0 r M = Inr (True, Lf)
                                \<and> targetAchieved Lf)))
            \<and> uncheckedRules Lf = [2, 3]"
    using b2 w2 r4 by (intro exI[of _ ?T1] exI[of _ ?Tf]) simp
  show ?thesis
    using part1 part2 by (simp add: L_ex_def)
qed

text \<open>
  Claim C1, on the code. Rule 1 (tier 0) is used, then rule 2 (tier 1) is used and the
  target is still not achieved. The index is set to 0, but the \<^verbatim>\<open>for\<close> statement
  increments it before the next queue is loaded: the scan resumes at tier 1, rule 2 fails,
  and the run returns a failure solution. Rule 1 is not tried again, although in the final
  state it would be used and would achieve the target.
\<close>

theorem applyInference_restart_skips_first_tier:
  "\<exists>s'. applyInference 3 C_ex K_ex 9 20 0 0 s_ex = Some (Inr (101, s'))
       \<and> log s' = [Start_rule_applying 2,
                   Using_rule 1, Trying_to_use_rule 1, Whole_statement_is True,
                   Using_rule 2, Trying_to_use_rule 2, Whole_statement_is True,
                   Using_rule 2, Trying_to_use_rule 2, Whole_statement_is False]
       \<and> (\<exists>s''. useRule C_ex K_ex 0 1 [] s' = Inr ((True, []), s'')
                \<and> fst (isTargetAchieved C_ex (world s'') 9 []))"
proof -
  let ?log = "[Start_rule_applying 2,
                   Using_rule 1, Trying_to_use_rule 1, Whole_statement_is True,
                   Using_rule 2, Trying_to_use_rule 2, Whole_statement_is True,
                   Using_rule 2, Trying_to_use_rule 2, Whole_statement_is False]"
  let ?m = "m_ex @ [(11, ScEdge ScType_EdgeAccessConstPosPerm 5 7),
               (12, ScEdge ScType_EdgeDCommonConst 1 3),
               (13, ScEdge ScType_EdgeAccessConstPosTemp 4 12),
               (14, ScEdge ScType_EdgeAccessConstPosPerm 5 8),
               (15, ScEdge ScType_EdgeDCommonConst 2 3),
               (16, ScEdge ScType_EdgeAccessConstNegTemp 4 15)]"
  let ?s' = "\<lparr>world = \<lparr>ms_context = ?m, searcher_params = [], searcher_inputStructure = 0\<rparr>,
              log = ?log\<rparr>"
  let ?s'' = "\<lparr>world = \<lparr>ms_context = ?m @ [(17, ScEdge ScType_EdgeAccessConstPosPerm 5 9)],
                          searcher_params = [], searcher_inputStructure = 0\<rparr>,
              log = ?log @ [Trying_to_use_rule 1, Whole_statement_is True]\<rparr>"
  have run: "applyInference 3 C_ex K_ex 9 20 0 0 s_ex = Some (Inr (101, ?s'))"
    by code_simp
  have again: "useRule C_ex K_ex 0 1 [] ?s' = Inr ((True, []), ?s'')"
    by code_simp
  have achieved: "fst (isTargetAchieved C_ex (world ?s'') 9 [])"
    by code_simp
  show ?thesis
    using run again achieved by (intro exI[of _ ?s'] conjI exI[of _ ?s'']) simp_all
qed


end
